theory Spec2Isabelle
  imports Complex_Main
begin

section \<open>Geo-Math: the calculation functions of app.js\<close>

text \<open>
  This section reads the calculation functions in exact real arithmetic: no rounding, no NaN,
  no infinities and no signed zero. Every function is the body of the function of the same
  name in \<^verbatim>\<open>src/app.js\<close>, with \<^verbatim>\<open>Math.sin\<close>, \<^verbatim>\<open>Math.cos\<close>, \<^verbatim>\<open>Math.sqrt\<close> and \<^verbatim>\<open>Math.PI\<close> read
  as \<^term>\<open>sin\<close>, \<^term>\<open>cos\<close>, \<^term>\<open>sqrt\<close> and \<^term>\<open>pi\<close>. The next section reads
  \<^verbatim>\<open>calculateDistance\<close> and the two copies of \<^verbatim>\<open>calculateBearing\<close> in double precision, where
  rounding decides the property.
\<close>

text \<open>\<^verbatim>\<open>const SPEED_OF_LIGHT = 3e8; // m/s\<close>\<close>

definition SPEED_OF_LIGHT :: real where
  "SPEED_OF_LIGHT = 3 * 10 ^ 8"

text \<open>
  \<^verbatim>\<open>Math.atan2(y, x)\<close>: the angle of the point \<open>(x, y)\<close>, in \<open>(-\<pi>, \<pi>]\<close>. At the origin
  JavaScript returns a zero (or \<open>\<plusminus>\<pi>\<close> for a negative zero \<open>x\<close>, which the reals do not have).
\<close>

definition atan2 :: "real \<Rightarrow> real \<Rightarrow> real" where
  "atan2 y x =
     (if 0 < x then arctan (y / x)
      else if x < 0 then (if 0 \<le> y then arctan (y / x) + pi else arctan (y / x) - pi)
      else if 0 < y then pi / 2
      else if y < 0 then - (pi / 2)
      else 0)"

text \<open>
  The remainder operator \<^verbatim>\<open>a % b\<close> of JavaScript on numbers: the quotient is truncated
  towards zero, so the result has the sign of the dividend.
\<close>

definition js_trunc :: "real \<Rightarrow> int" where
  "js_trunc q = (if 0 \<le> q then \<lfloor>q\<rfloor> else \<lceil>q\<rceil>)"

definition js_rem :: "real \<Rightarrow> real \<Rightarrow> real" where
  "js_rem a b = a - b * of_int (js_trunc (a / b))"

definition toRadians :: "real \<Rightarrow> real" where
  "toRadians degrees = degrees * pi / 180"

definition toDegrees :: "real \<Rightarrow> real" where
  "toDegrees radians = radians * 180 / pi"

definition calculateWavelength :: "real \<Rightarrow> real" where
  "calculateWavelength frequencyGHz =
     (let frequencyHz = frequencyGHz * 10 ^ 9 in SPEED_OF_LIGHT / frequencyHz)"

definition calculateFresnelRadius :: "real \<Rightarrow> real \<Rightarrow> real \<Rightarrow> real" where
  "calculateFresnelRadius wavelength d1 d2 =
     (let d1Meters = d1 * 1000;
          d2Meters = d2 * 1000;
          radius = sqrt ((wavelength * d1Meters * d2Meters) / (d1Meters + d2Meters))
      in radius)"

definition calculateDistance :: "real \<Rightarrow> real \<Rightarrow> real \<Rightarrow> real \<Rightarrow> real" where
  "calculateDistance lat1 lon1 lat2 lon2 =
     (let R = 6371;
          dLat = toRadians (lat2 - lat1);
          dLon = toRadians (lon2 - lon1);
          a = sin (dLat / 2) * sin (dLat / 2) +
              cos (toRadians lat1) * cos (toRadians lat2) *
              sin (dLon / 2) * sin (dLon / 2);
          c = 2 * atan2 (sqrt a) (sqrt (1 - a))
      in R * c)"

text \<open>The first copy of \<^verbatim>\<open>calculateBearing\<close> (app.js, lines 459-474), normalised with \<^verbatim>\<open>% 360\<close>.\<close>

definition calculateBearing :: "real \<Rightarrow> real \<Rightarrow> real \<Rightarrow> real \<Rightarrow> real" where
  "calculateBearing lat1 lon1 lat2 lon2 =
     (let lat1Rad = toRadians lat1;
          lat2Rad = toRadians lat2;
          lonDiffRad = toRadians (lon2 - lon1);
          y = sin lonDiffRad * cos lat2Rad;
          x = cos lat1Rad * sin lat2Rad - sin lat1Rad * cos lat2Rad * cos lonDiffRad;
          bearing = atan2 y x
      in js_rem (toDegrees bearing + 360) 360)"

text \<open>
  The second copy of \<^verbatim>\<open>calculateBearing\<close> (app.js, lines 1243-1251), in the legacy half of
  the file: it returns the angle in degrees as \<^verbatim>\<open>Math.atan2\<close> gives it.
\<close>

definition calculateBearing_legacy :: "real \<Rightarrow> real \<Rightarrow> real \<Rightarrow> real \<Rightarrow> real" where
  "calculateBearing_legacy lat1 lon1 lat2 lon2 =
     (let dLon = toRadians (lon2 - lon1);
          y = sin dLon * cos (toRadians lat2);
          x = cos (toRadians lat1) * sin (toRadians lat2) -
              sin (toRadians lat1) * cos (toRadians lat2) * cos dLon;
          bearing = atan2 y x
      in toDegrees bearing)"

section \<open>Geo-Math in double precision\<close>

text \<open>
  The numbers of the program are IEEE 754 doubles. \<open>rnd\<close> rounds a real to the nearest
  double, ties to even, as \<^verbatim>\<open>+\<close>, \<^verbatim>\<open>-\<close>, \<^verbatim>\<open>*\<close> and \<^verbatim>\<open>/\<close> do after every operation;
  a double other than 0 is \<open>m * 2 ^ e\<close> with a 53-bit \<open>m\<close>. The exponent range is not
  bounded here, so overflow to infinity and underflow are not modelled, and the only NaN
  modelled is the one of \<^verbatim>\<open>Math.sqrt\<close> on a negative number. \<^verbatim>\<open>%\<close> is exact on doubles, so it
  stays \<open>js_rem\<close>.
\<close>

definition pow2 :: "int \<Rightarrow> real" where
  "pow2 e = (if 0 \<le> e then 2 ^ nat e else 1 / 2 ^ nat (- e))"

definition round_half_even :: "real \<Rightarrow> int" where
  "round_half_even x =
     (let f = \<lfloor>x\<rfloor>; d = x - of_int f
      in if d < 1 / 2 then f else if 1 / 2 < d then f + 1 else if even f then f else f + 1)"

definition rnd :: "real \<Rightarrow> real" where
  "rnd x = (if x = 0 then 0
            else let e = \<lfloor>log 2 \<bar>x\<bar>\<rfloor> - 52
                 in of_int (round_half_even (x / pow2 e)) * pow2 e)"

definition fl_add :: "real \<Rightarrow> real \<Rightarrow> real" where
  "fl_add x y = rnd (x + y)"

definition fl_sub :: "real \<Rightarrow> real \<Rightarrow> real" where
  "fl_sub x y = rnd (x - y)"

definition fl_mul :: "real \<Rightarrow> real \<Rightarrow> real" where
  "fl_mul x y = rnd (x * y)"

definition fl_div :: "real \<Rightarrow> real \<Rightarrow> real" where
  "fl_div x y = rnd (x / y)"

text \<open>\<^verbatim>\<open>Math.PI\<close>, the double nearest to \<open>\<pi>\<close>: 3.141592653589793.\<close>

definition Math_PI :: real where
  "Math_PI = 884279719003555 / 281474976710656"

text \<open>
  \<^verbatim>\<open>Math.sin\<close>, \<^verbatim>\<open>Math.cos\<close>, \<^verbatim>\<open>Math.atan2\<close> and \<^verbatim>\<open>Math.sqrt\<close> belong to the JavaScript engine,
  not to the program: they are a parameter of the double-precision functions.
\<close>

record math_library =
  Math_sin :: "real \<Rightarrow> real"
  Math_cos :: "real \<Rightarrow> real"
  Math_atan2 :: "real \<Rightarrow> real \<Rightarrow> real"
  Math_sqrt :: "real \<Rightarrow> real"

datatype js_number = NaN | Num real

text \<open>\<^verbatim>\<open>Math.sqrt(x)\<close> is NaN for \<open>x < 0\<close>; \<^verbatim>\<open>==\<close> on numbers is false as soon as one side is NaN.\<close>

definition js_sqrt :: "math_library \<Rightarrow> real \<Rightarrow> js_number" where
  "js_sqrt M x = (if x < 0 then NaN else Num (Math_sqrt M x))"

fun js_equals :: "js_number \<Rightarrow> js_number \<Rightarrow> bool" where
  "js_equals (Num x) (Num y) = (x = y)"
| "js_equals a b = False"

definition toRadians_double :: "real \<Rightarrow> real" where
  "toRadians_double degrees = fl_div (fl_mul degrees Math_PI) 180"

definition toDegrees_double :: "real \<Rightarrow> real" where
  "toDegrees_double radians = fl_div (fl_mul radians 180) Math_PI"

text \<open>
  \<^verbatim>\<open>calculateDistance\<close> on doubles. A NaN from either square root goes through
  \<^verbatim>\<open>Math.atan2\<close> and the two products to the result.
\<close>

definition calculateDistance_double ::
  "math_library \<Rightarrow> real \<Rightarrow> real \<Rightarrow> real \<Rightarrow> real \<Rightarrow> js_number" where
  "calculateDistance_double M lat1 lon1 lat2 lon2 =
     (let R = 6371;
          dLat = toRadians_double (fl_sub lat2 lat1);
          dLon = toRadians_double (fl_sub lon2 lon1);
          a = fl_add
                (fl_mul (Math_sin M (fl_div dLat 2)) (Math_sin M (fl_div dLat 2)))
                (fl_mul
                   (fl_mul
                      (fl_mul (Math_cos M (toRadians_double lat1))
                              (Math_cos M (toRadians_double lat2)))
                      (Math_sin M (fl_div dLon 2)))
                   (Math_sin M (fl_div dLon 2)))
      in case js_sqrt M a of
           NaN \<Rightarrow> NaN
         | Num p \<Rightarrow>
             (case js_sqrt M (fl_sub 1 a) of
                NaN \<Rightarrow> NaN
              | Num q \<Rightarrow> Num (fl_mul R (fl_mul 2 (Math_atan2 M p q)))))"

text \<open>The two copies of \<^verbatim>\<open>calculateBearing\<close> on doubles.\<close>

definition calculateBearing_double ::
  "math_library \<Rightarrow> real \<Rightarrow> real \<Rightarrow> real \<Rightarrow> real \<Rightarrow> real" where
  "calculateBearing_double M lat1 lon1 lat2 lon2 =
     (let lat1Rad = toRadians_double lat1;
          lat2Rad = toRadians_double lat2;
          lonDiffRad = toRadians_double (fl_sub lon2 lon1);
          y = fl_mul (Math_sin M lonDiffRad) (Math_cos M lat2Rad);
          x = fl_sub (fl_mul (Math_cos M lat1Rad) (Math_sin M lat2Rad))
                     (fl_mul (fl_mul (Math_sin M lat1Rad) (Math_cos M lat2Rad))
                             (Math_cos M lonDiffRad));
          bearing = Math_atan2 M y x
      in js_rem (fl_add (toDegrees_double bearing) 360) 360)"

definition calculateBearing_legacy_double ::
  "math_library \<Rightarrow> real \<Rightarrow> real \<Rightarrow> real \<Rightarrow> real \<Rightarrow> real" where
  "calculateBearing_legacy_double M lat1 lon1 lat2 lon2 =
     (let dLon = toRadians_double (fl_sub lon2 lon1);
          y = fl_mul (Math_sin M dLon) (Math_cos M (toRadians_double lat2));
          x = fl_sub (fl_mul (Math_cos M (toRadians_double lat1))
                             (Math_sin M (toRadians_double lat2)))
                     (fl_mul (fl_mul (Math_sin M (toRadians_double lat1))
                                     (Math_cos M (toRadians_double lat2)))
                             (Math_cos M dLon));
          bearing = Math_atan2 M y x
      in toDegrees_double bearing)"

text \<open>
  A library that returns the double nearest to the exact value. At the arguments that the
  two inputs studied below reach (1 degree, 8 degrees, a quarter turn, and the bearing from
  (0, 0) to (1, 1)) the value is written out.
\<close>

definition reference_library :: math_library where
  "reference_library =
     \<lparr>Math_sin = (\<lambda>x.
        if x = 0 then 0
        else if x = 5030569068109113 / 288230376151711744
          then 2515156836085391 / 144115188075855872
        else if x = 5030569068109113 / 36028797018963968
          then 5014239404989977 / 36028797018963968
        else if x = - (5030569068109113 / 36028797018963968)
          then - (5014239404989977 / 36028797018963968)
        else if x = 884279719003555 / 562949953421312 then 1
        else if x = - (884279719003555 / 562949953421312) then - 1
        else rnd (sin x)),
      Math_cos = (\<lambda>x.
        if x = 0 then 1
        else if x = 5030569068109113 / 288230376151711744
          then 4502913707333573 / 4503599627370496
        else if x = 5030569068109113 / 36028797018963968
          then 4459770905381437 / 4503599627370496
        else if x = - (5030569068109113 / 36028797018963968)
          then 4459770905381437 / 4503599627370496
        else rnd (cos x)),
      Math_atan2 = (\<lambda>y x.
        if y = 5029547531033639 / 288230376151711744 \<and>
           x = 2515156836085391 / 144115188075855872
          then 7073551779754393 / 9007199254740992
        else rnd (atan2 y x)),
      Math_sqrt = (\<lambda>x. rnd (sqrt x))\<rparr>"

section \<open>Domain model: the application state of app.js\<close>

text \<open>
  Towers are JavaScript objects shared by reference between \<^verbatim>\<open>state.towers\<close>,
  \<^verbatim>\<open>state.selectedTowers\<close> and the \<^verbatim>\<open>tower1\<close>/\<^verbatim>\<open>tower2\<close> fields of the links, and
  \<^verbatim>\<open>updateTowerFrequency\<close> mutates them in place. The model keeps them in an explicit store
  \<open>heap\<close> from references to tower objects; \<open>nextRef\<close> is the next unused reference.
  Links are never mutated in the fields modelled here, so they are kept as values.
  The Leaflet handles (\<^verbatim>\<open>marker\<close>, \<^verbatim>\<open>polyline\<close>, \<^verbatim>\<open>fresnelZone\<close>, \<^verbatim>\<open>state.map\<close>) and the DOM
  updates (\<^verbatim>\<open>updateTowerList\<close>, \<^verbatim>\<open>updateLinkList\<close>, icons, popups) belong to the rendering
  side and are left out.
\<close>

type_synonym ref = nat

record tower =
  tower_id :: nat
  name :: string
  frequency :: real
  lat :: real
  lng :: real

record link =
  link_id :: nat
  tower1 :: ref
  tower2 :: ref
  link_frequency :: real
  distance :: real

text \<open>
  The messages passed to \<^verbatim>\<open>showNotification(..., 'error')\<close>, under the names the
  specification gives them:
  \<^item> \<open>ValidationError\<close>: 'Please enter a valid tower name and frequency.'
  \<^item> \<open>FrequencyMismatchError\<close>: 'Cannot connect towers with different frequencies! ...'
  \<^item> \<open>DuplicateLinkError\<close>: 'A link already exists between these towers.'
\<close>

datatype notification = ValidationError | FrequencyMismatchError real real | DuplicateLinkError

text \<open>An uncaught exception of an event handler; what the handler did before it stays done.\<close>

datatype exception = TypeError

text \<open>
  The three closures passed as \<^verbatim>\<open>onConfirm\<close> to \<^verbatim>\<open>showConfirmationModal\<close>: by
  \<^verbatim>\<open>requestDeleteTower\<close>, by \<^verbatim>\<open>window.deleteLink\<close> and by \<^verbatim>\<open>updateTowerFrequency\<close> (which
  captures the list \<^verbatim>\<open>invalidLinks\<close>).
\<close>

datatype callback =
    DeleteTowerCallback nat
  | DeleteLinkCallback nat
  | DeleteInvalidLinksCallback "link list"

text \<open>The handlers bound to the two buttons of the confirmation modal while it is shown.\<close>

record modal =
  onConfirm :: callback
  returnPromise :: bool

text \<open>
  The frame of \<^verbatim>\<open>updateTowerFrequency\<close> suspended at its \<^verbatim>\<open>await\<close>: what the \<^verbatim>\<open>resolve\<close>
  function stored in \<^verbatim>\<open>state.confirmAction\<close> would resume.
\<close>

record frame =
  frame_towerId :: nat
  frame_tower :: ref

record state =
  mode :: string
  towers :: "ref list"
  links :: "link list"
  selectedTowers :: "ref list"
  towerIdCounter :: nat
  linkIdCounter :: nat
  pendingTowerLocation :: "(real \<times> real) option"
  activeLinkForFresnel :: "nat option"
  confirmAction :: "frame option"
  confirmModal :: "modal option"
  heap :: "ref \<Rightarrow> tower"
  nextRef :: ref

definition no_tower :: tower where
  "no_tower = \<lparr>tower_id = 0, name = [], frequency = 0, lat = 0, lng = 0\<rparr>"

definition initial_state :: state where
  "initial_state =
     \<lparr>mode = ''addTower'', towers = [], links = [], selectedTowers = [],
      towerIdCounter = 1, linkIdCounter = 1, pendingTowerLocation = None,
      activeLinkForFresnel = None, confirmAction = None, confirmModal = None,
      heap = (\<lambda>r. no_tower), nextRef = 0\<rparr>"

subsection \<open>Array helpers\<close>

text \<open>\<^verbatim>\<open>xs.findIndex(P)\<close>, with \<open>None\<close> for \<open>-1\<close>; \<^verbatim>\<open>xs.splice(i, 1)\<close>.\<close>

fun findIndex :: "('a \<Rightarrow> bool) \<Rightarrow> 'a list \<Rightarrow> nat option" where
  "findIndex P [] = None"
| "findIndex P (x # xs) = (if P x then Some 0 else map_option Suc (findIndex P xs))"

definition splice1 :: "nat \<Rightarrow> 'a list \<Rightarrow> 'a list" where
  "splice1 i xs = take i xs @ drop (Suc i) xs"

text \<open>
  \<^verbatim>\<open>a || b\<close> on numbers, where \<open>None\<close> is \<^verbatim>\<open>undefined\<close>: \<^verbatim>\<open>b\<close> when \<^verbatim>\<open>a\<close> is falsy.
\<close>

fun js_or :: "real option \<Rightarrow> real \<Rightarrow> real" where
  "js_or None b = b"
| "js_or (Some a) b = (if a = 0 then b else a)"

subsection \<open>Towers\<close>

definition handleMapClick :: "real \<times> real \<Rightarrow> state \<Rightarrow> state" where
  "handleMapClick latlng s =
     (if mode s = ''addTower'' then s\<lparr>pendingTowerLocation := Some latlng\<rparr> else s)"

definition hideTowerModal :: "state \<Rightarrow> state" where
  "hideTowerModal s = s\<lparr>pendingTowerLocation := None\<rparr>"

definition addTower :: "real \<times> real \<Rightarrow> string \<Rightarrow> real \<Rightarrow> state \<Rightarrow> state" where
  "addTower latlng nm freq s =
     (let tower = \<lparr>tower_id = towerIdCounter s, name = nm, frequency = freq,
                   lat = fst latlng, lng = snd latlng\<rparr>;
          r = nextRef s
      in s\<lparr>towerIdCounter := towerIdCounter s + 1,
            heap := (heap s)(r := tower),
            nextRef := r + 1,
            towers := towers s @ [r]\<rparr>)"

text \<open>
  \<^verbatim>\<open>saveTower\<close> reads the name and \<^verbatim>\<open>parseFloat\<close> of the frequency field; they are the
  arguments here. \<^verbatim>\<open>!frequency\<close> holds for \<open>0\<close>.
\<close>

definition saveTower :: "string \<Rightarrow> real \<Rightarrow> state \<Rightarrow> notification option \<times> state" where
  "saveTower nm freq s =
     (if nm = [] \<or> freq = 0 \<or> freq \<le> 0 then (Some ValidationError, s)
      else case pendingTowerLocation s of
             Some latlng \<Rightarrow> (None, hideTowerModal (addTower latlng nm freq s))
           | None \<Rightarrow> (None, s))"

subsection \<open>Links\<close>

definition clearTowerSelection :: "state \<Rightarrow> state" where
  "clearTowerSelection s = s\<lparr>selectedTowers := []\<rparr>"

definition createLink :: "ref \<Rightarrow> ref \<Rightarrow> state \<Rightarrow> notification option \<times> state" where
  "createLink t1 t2 s =
     (let exists = list_ex (\<lambda>l.
            (tower_id (heap s (tower1 l)) = tower_id (heap s t1) \<and>
             tower_id (heap s (tower2 l)) = tower_id (heap s t2)) \<or>
            (tower_id (heap s (tower1 l)) = tower_id (heap s t2) \<and>
             tower_id (heap s (tower2 l)) = tower_id (heap s t1))) (links s)
      in if exists then (Some DuplicateLinkError, s)
         else
           let l = \<lparr>link_id = linkIdCounter s, tower1 = t1, tower2 = t2,
                    link_frequency = frequency (heap s t1),
                    distance = calculateDistance (lat (heap s t1)) (lng (heap s t1))
                                                 (lat (heap s t2)) (lng (heap s t2))\<rparr>
           in (None, s\<lparr>linkIdCounter := linkIdCounter s + 1, links := links s @ [l]\<rparr>))"

definition handleTowerClickForLink :: "ref \<Rightarrow> state \<Rightarrow> notification option \<times> state" where
  "handleTowerClickForLink tower s =
     (let s1 = (case findIndex (\<lambda>t. tower_id (heap s t) = tower_id (heap s tower))
                       (selectedTowers s) of
                  Some i \<Rightarrow> s\<lparr>selectedTowers := splice1 i (selectedTowers s)\<rparr>
                | None \<Rightarrow> s\<lparr>selectedTowers := selectedTowers s @ [tower]\<rparr>)
      in if length (selectedTowers s1) = 2 then
           let t1 = selectedTowers s1 ! 0; t2 = selectedTowers s1 ! 1
           in if frequency (heap s1 t1) \<noteq> frequency (heap s1 t2)
              then (Some (FrequencyMismatchError (frequency (heap s1 t1)) (frequency (heap s1 t2))),
                    clearTowerSelection s1)
              else let (n, s2) = createLink t1 t2 s1 in (n, clearTowerSelection s2)
         else (None, s1))"

definition setMode :: "string \<Rightarrow> state \<Rightarrow> state" where
  "setMode m s = clearTowerSelection (s\<lparr>mode := m\<rparr>)"

subsection \<open>Deleting\<close>

definition performDeleteLink :: "nat \<Rightarrow> state \<Rightarrow> state" where
  "performDeleteLink linkId s =
     (case findIndex (\<lambda>l. link_id l = linkId) (links s) of
        None \<Rightarrow> s
      | Some linkIndex \<Rightarrow>
          let s1 = s\<lparr>links := splice1 linkIndex (links s)\<rparr>
          in if activeLinkForFresnel s1 = Some linkId
             then s1\<lparr>activeLinkForFresnel := None\<rparr> else s1)"

definition performDeleteTower :: "nat \<Rightarrow> state \<Rightarrow> state" where
  "performDeleteTower towerId s =
     (case findIndex (\<lambda>t. tower_id (heap s t) = towerId) (towers s) of
        None \<Rightarrow> s
      | Some towerIndex \<Rightarrow>
          let linksToRemove = filter (\<lambda>l. tower_id (heap s (tower1 l)) = towerId \<or>
                                          tower_id (heap s (tower2 l)) = towerId) (links s);
              s1 = fold (\<lambda>l. performDeleteLink (link_id l)) linksToRemove s
          in s1\<lparr>towers := splice1 towerIndex (towers s1)\<rparr>)"

subsection \<open>The confirmation modal\<close>

text \<open>
  \<^verbatim>\<open>showConfirmationModal(title, message, onConfirm, returnPromise)\<close> binds the two button
  handlers and, when \<^verbatim>\<open>returnPromise\<close> is set, stores the promise's \<^verbatim>\<open>resolve\<close> in
  \<^verbatim>\<open>state.confirmAction\<close>; \<open>awaiting\<close> is the frame that awaits the promise.
\<close>

definition showConfirmationModal :: "callback \<Rightarrow> bool \<Rightarrow> frame option \<Rightarrow> state \<Rightarrow> state" where
  "showConfirmationModal cb rp awaiting s =
     (let s1 = s\<lparr>confirmModal := Some \<lparr>onConfirm = cb, returnPromise = rp\<rparr>\<rparr>
      in if rp then s1\<lparr>confirmAction := awaiting\<rparr> else s1)"

definition hideConfirmationModal :: "state \<Rightarrow> state" where
  "hideConfirmationModal s = s\<lparr>confirmModal := None, confirmAction := None\<rparr>"

text \<open>
  The callbacks of \<^verbatim>\<open>requestDeleteTower\<close> and \<^verbatim>\<open>window.deleteLink\<close> delete at once or at the
  end of the list item's exit animation; the deletion itself is the same.
\<close>

fun runCallback :: "callback \<Rightarrow> state \<Rightarrow> state" where
  "runCallback (DeleteTowerCallback towerId) s = performDeleteTower towerId s"
| "runCallback (DeleteLinkCallback linkId) s = performDeleteLink linkId s"
| "runCallback (DeleteInvalidLinksCallback invalidLinks) s =
     fold (\<lambda>l. performDeleteLink (link_id l)) invalidLinks s"

definition requestDeleteTower :: "nat \<Rightarrow> state \<Rightarrow> state" where
  "requestDeleteTower towerId s =
     (case find (\<lambda>t. tower_id (heap s t) = towerId) (towers s) of
        None \<Rightarrow> s
      | Some tower \<Rightarrow> showConfirmationModal (DeleteTowerCallback towerId) False None s)"

text \<open>
  \<^verbatim>\<open>window.deleteLink\<close>, assigned at the end of the script: it replaces the global function
  \<^verbatim>\<open>deleteLink\<close> declared earlier, and is what the link list's delete button calls.
\<close>

definition deleteLink :: "nat \<Rightarrow> bool \<Rightarrow> state \<Rightarrow> state" where
  "deleteLink linkId skipConfirm s =
     (case find (\<lambda>l. link_id l = linkId) (links s) of
        None \<Rightarrow> s
      | Some l \<Rightarrow>
          if skipConfirm then performDeleteLink linkId s
          else showConfirmationModal (DeleteLinkCallback linkId) False None s)"

subsection \<open>Changing a tower's frequency\<close>

text \<open>
  \<^verbatim>\<open>updateTowerFrequency\<close> is an \<^verbatim>\<open>async\<close> function. \<open>updateTowerFrequency\<close> is its body up to
  the \<^verbatim>\<open>await\<close>, \<open>updateTowerFrequency_resume\<close> the rest, run when the promise is resolved
  with \<open>confirmed\<close>. \<open>newFrequency\<close> is the value of \<^verbatim>\<open>parseFloat(newFrequency)\<close>.
\<close>

definition updateTowerFrequency :: "nat \<Rightarrow> real \<Rightarrow> state \<Rightarrow> state" where
  "updateTowerFrequency towerId newFrequency s =
     (case find (\<lambda>t. tower_id (heap s t) = towerId) (towers s) of
        None \<Rightarrow> s
      | Some tower \<Rightarrow>
          let s1 = s\<lparr>heap := (heap s)(tower := (heap s tower)\<lparr>frequency := newFrequency\<rparr>)\<rparr>;
              invalidLinks = filter (\<lambda>l.
                 (tower_id (heap s1 (tower1 l)) = towerId \<or>
                  tower_id (heap s1 (tower2 l)) = towerId) \<and>
                 frequency (heap s1 (tower1 l)) \<noteq> frequency (heap s1 (tower2 l))) (links s1)
          in if length invalidLinks > 0
             then showConfirmationModal (DeleteInvalidLinksCallback invalidLinks) True
                    (Some \<lparr>frame_towerId = towerId, frame_tower = tower\<rparr>) s1
             else s1)"

definition updateTowerFrequency_resume :: "frame \<Rightarrow> bool \<Rightarrow> state \<Rightarrow> state" where
  "updateTowerFrequency_resume k confirmed s =
     (let towerId = frame_towerId k; tower = frame_tower k
      in if \<not> confirmed then
           let originalFrequency =
                 js_or (map_option link_frequency
                          (find (\<lambda>l. tower_id (heap s (tower1 l)) = towerId \<or>
                                      tower_id (heap s (tower2 l)) = towerId) (links s)))
                       (frequency (heap s tower))
           in s\<lparr>heap := (heap s)(tower := (heap s tower)\<lparr>frequency := originalFrequency\<rparr>)\<rparr>
         else s)"

text \<open>
  The button handlers. \<^verbatim>\<open>state.confirmAction.resolve(b)\<close> reads \<^verbatim>\<open>state.confirmAction\<close>
  after \<^verbatim>\<open>hideConfirmationModal()\<close> has run: on \<^verbatim>\<open>null\<close> the property access throws.
\<close>

definition handleConfirm :: "modal \<Rightarrow> state \<Rightarrow> exception option \<times> state" where
  "handleConfirm m s =
     (let s1 = runCallback (onConfirm m) s;
          s2 = hideConfirmationModal s1
      in if returnPromise m then
           (case confirmAction s2 of
              None \<Rightarrow> (Some TypeError, s2)
            | Some k \<Rightarrow> (None, updateTowerFrequency_resume k True s2))
         else (None, s2))"

definition handleCancel :: "modal \<Rightarrow> state \<Rightarrow> exception option \<times> state" where
  "handleCancel m s =
     (let s1 = hideConfirmationModal s
      in if returnPromise m then
           (case confirmAction s1 of
              None \<Rightarrow> (Some TypeError, s1)
            | Some k \<Rightarrow> (None, updateTowerFrequency_resume k False s1))
         else (None, s1))"

subsection \<open>The Fresnel zone toggle\<close>

definition deactivateActiveFresnelZone :: "state \<Rightarrow> state" where
  "deactivateActiveFresnelZone s = s\<lparr>activeLinkForFresnel := None\<rparr>"

definition showFresnelZone :: "link \<Rightarrow> state \<Rightarrow> state" where
  "showFresnelZone l s =
     (if activeLinkForFresnel s = Some (link_id l) then deactivateActiveFresnelZone s
      else
        let s1 = (if activeLinkForFresnel s \<noteq> None then deactivateActiveFresnelZone s else s)
        in s1\<lparr>activeLinkForFresnel := Some (link_id l)\<rparr>)"

text \<open>
  The links shown as active: \<^verbatim>\<open>updateLinkList\<close> marks a link with
  \<^verbatim>\<open>state.activeLinkForFresnel === link.id\<close>.
\<close>

definition active_links :: "state \<Rightarrow> link list" where
  "active_links s = filter (\<lambda>l. activeLinkForFresnel s = Some (link_id l)) (links s)"

subsection \<open>User events and reachable states\<close>

text \<open>
  One constructor for each gesture the page reacts to, \<open>enabled\<close> for when the page offers it
  (a marker or a line is on the map while its tower or link is in the state, the modal's
  buttons while the modal is shown), and \<open>fire\<close> for the handler it runs.
\<close>

datatype event =
    MapClick "real \<times> real"
  | SaveTowerClick string real
  | CancelTowerClick
  | TowerMarkerClick ref
  | ModeButtonClick string
  | DeleteTowerClick nat
  | DeleteLinkClick nat
  | FrequencyChange nat real
  | LinkClick link
  | ConfirmClick
  | CancelConfirmClick
  | ModalBackdropClick

fun enabled :: "event \<Rightarrow> state \<Rightarrow> bool" where
  "enabled (TowerMarkerClick tower) s = (tower \<in> set (towers s))"
| "enabled (ModeButtonClick m) s = (m = ''addTower'' \<or> m = ''addLink'')"
| "enabled (LinkClick l) s = (l \<in> set (links s))"
| "enabled ConfirmClick s = (confirmModal s \<noteq> None)"
| "enabled CancelConfirmClick s = (confirmModal s \<noteq> None)"
| "enabled ModalBackdropClick s = (confirmModal s \<noteq> None)"
| "enabled e s = True"

fun fire :: "event \<Rightarrow> state \<Rightarrow> state" where
  "fire (MapClick latlng) s = handleMapClick latlng s"
| "fire (SaveTowerClick nm freq) s = snd (saveTower nm freq s)"
| "fire CancelTowerClick s = hideTowerModal s"
| "fire (TowerMarkerClick tower) s =
     (if mode s = ''addLink'' then snd (handleTowerClickForLink tower s) else s)"
| "fire (ModeButtonClick m) s = setMode m s"
| "fire (DeleteTowerClick towerId) s = requestDeleteTower towerId s"
| "fire (DeleteLinkClick linkId) s = deleteLink linkId False s"
| "fire (FrequencyChange towerId newFrequency) s = updateTowerFrequency towerId newFrequency s"
| "fire (LinkClick l) s = showFresnelZone l s"
| "fire ConfirmClick s = (case confirmModal s of None \<Rightarrow> s | Some m \<Rightarrow> snd (handleConfirm m s))"
| "fire CancelConfirmClick s = (case confirmModal s of None \<Rightarrow> s | Some m \<Rightarrow> snd (handleCancel m s))"
| "fire ModalBackdropClick s = hideConfirmationModal s"

inductive reachable :: "state \<Rightarrow> bool" where
  reachable_init: "reachable initial_state"
| reachable_step: "reachable s \<Longrightarrow> enabled e s \<Longrightarrow> reachable (fire e s)"

fun run :: "event list \<Rightarrow> state \<Rightarrow> state" where
  "run [] s = s"
| "run (e # es) s = run es (fire e s)"

fun all_enabled :: "event list \<Rightarrow> state \<Rightarrow> bool" where
  "all_enabled [] s = True"
| "all_enabled (e # es) s = (enabled e s \<and> all_enabled es (fire e s))"

subsection \<open>The invariant of the link collection\<close>

text \<open>
  Link ids are unique and below \<^verbatim>\<open>state.linkIdCounter\<close>: \<^verbatim>\<open>createLink\<close> is the only place
  that makes a link, with \<^verbatim>\<open>id: state.linkIdCounter++\<close>.
\<close>

definition links_inv :: "state \<Rightarrow> bool" where
  "links_inv s \<longleftrightarrow> distinct (map link_id (links s)) \<and> list_all (\<lambda>l. link_id l < linkIdCounter s) (links s)"

subsection \<open>Example sessions\<close>

text \<open>
  States reached from the initial state by the listed gestures: one tower; two towers at
  5 GHz joined by a link; three towers at 5, 5.1 and 5 GHz with the first one selected; three
  towers at 5 GHz joined pairwise by three links.
\<close>

definition one_tower_state :: state where
  "one_tower_state = run [MapClick (0, 0), SaveTowerClick ''Tower 1'' 5] initial_state"

definition linked_pair_state :: state where
  "linked_pair_state =
     run [MapClick (0, 0), SaveTowerClick ''Tower 1'' 5,
          MapClick (0, 1), SaveTowerClick ''Tower 2'' 5,
          ModeButtonClick ''addLink'',
          TowerMarkerClick 0, TowerMarkerClick 1] initial_state"

definition mixed_state :: state where
  "mixed_state =
     run [MapClick (0, 0), SaveTowerClick ''Tower 1'' 5,
          MapClick (0, 1), SaveTowerClick ''Tower 2'' 5.1,
          MapClick (1, 0), SaveTowerClick ''Tower 3'' 5,
          ModeButtonClick ''addLink'',
          TowerMarkerClick 0] initial_state"

definition triangle_state :: state where
  "triangle_state = run [MapClick (0, 0), SaveTowerClick ''Tower 1'' 5,
              MapClick (0, 1), SaveTowerClick ''Tower 2'' 5,
              MapClick (1, 0), SaveTowerClick ''Tower 3'' 5,
              ModeButtonClick ''addLink'',
              TowerMarkerClick 0, TowerMarkerClick 1,
              TowerMarkerClick 0, TowerMarkerClick 2,
              TowerMarkerClick 1, TowerMarkerClick 2] initial_state"

text \<open>
  Three towers at 5 GHz; the first is selected, then deleted from the tower list and the
  deletion confirmed, then the second tower is clicked.
\<close>

definition stale_selection_state :: state where
  "stale_selection_state =
     run [MapClick (0, 0), SaveTowerClick ''Tower 1'' 5,
          MapClick (0, 1), SaveTowerClick ''Tower 2'' 5,
          MapClick (1, 0), SaveTowerClick ''Tower 3'' 5,
          ModeButtonClick ''addLink'',
          TowerMarkerClick 0,
          DeleteTowerClick 1, ConfirmClick,
          TowerMarkerClick 1] initial_state"

section \<open>Properties of the calculation functions\<close>

lemma atan2_bounds: "- pi < atan2 y x \<and> atan2 y x \<le> pi"
proof -
  have a: "- (pi / 2) < arctan (y / x)" "arctan (y / x) < pi / 2"
    using arctan_lbound [of "y / x"] arctan_ubound [of "y / x"] by simp_all
  have neg: "x < 0 \<Longrightarrow> 0 \<le> y \<Longrightarrow> arctan (y / x) \<le> 0"
    by (simp add: arctan_le_zero_iff divide_nonneg_neg)
  have pos: "x < 0 \<Longrightarrow> y < 0 \<Longrightarrow> 0 < arctan (y / x)"
    by (simp add: zero_less_arctan_iff divide_neg_neg)
  show ?thesis
    unfolding atan2_def using a neg pos pi_gt_zero by auto
qed

lemma toDegrees_atan2_bounds:
  "- 180 < toDegrees (atan2 y x) \<and> toDegrees (atan2 y x) \<le> 180"
proof -
  have b: "- pi < atan2 y x" "atan2 y x \<le> pi" using atan2_bounds by auto
  have "- 180 < atan2 y x * 180 / pi"
    using b(1) pi_gt_zero by (simp add: pos_less_divide_eq)
  moreover have "atan2 y x * 180 / pi \<le> 180"
    using b(2) pi_gt_zero by (simp add: pos_divide_le_eq)
  ultimately show ?thesis by (simp add: toDegrees_def)
qed

lemma js_rem_360_range:
  assumes "180 < t" and "t \<le> 540"
  shows "0 \<le> js_rem t 360 \<and> js_rem t 360 < 360"
proof (cases "t < 360")
  case True
  then have "\<lfloor>t / 360\<rfloor> = 0" using assms by (simp add: floor_eq_iff)
  then show ?thesis using assms True by (simp add: js_rem_def js_trunc_def)
next
  case False
  then have "\<lfloor>t / 360\<rfloor> = 1" using assms by (simp add: floor_eq_iff)
  then show ?thesis using assms False by (simp add: js_rem_def js_trunc_def)
qed

lemma js_rem_360_id:
  assumes "0 \<le> t" and "t \<le> 180"
  shows "js_rem (t + 360) 360 = t"
proof -
  have "\<lfloor>(t + 360) / 360\<rfloor> = 1" using assms by (simp add: floor_eq_iff)
  then show ?thesis using assms by (simp add: js_rem_def js_trunc_def)
qed

lemma sqrt_150_bounds: "12.24 < sqrt 150 \<and> sqrt 150 < 12.25"
proof -
  have "sqrt (12.24\<^sup>2) < sqrt 150"
    by (subst real_sqrt_less_iff) (simp add: power2_eq_square)
  moreover have "sqrt 150 < sqrt (12.25\<^sup>2)"
    by (subst real_sqrt_less_iff) (simp add: power2_eq_square)
  ultimately show ?thesis by simp
qed

text \<open>
  Claim C1. For a wavelength \<open>\<lambda> > 0\<close> and a link of \<open>d > 0\<close> kilometres, the radius at the
  midpoint, \<open>calculateFresnelRadius \<lambda> (d/2) (d/2)\<close>, is
  \<open>sqrt ((\<lambda> \<sqdot> d1m \<sqdot> d2m) / (d1m + d2m))\<close> with \<open>d1m = d2m = 500 \<sqdot> d\<close> metres. At 5 GHz the
  wavelength is 0.06 m, and on a 10 km link the radius is \<open>sqrt 150\<close>, between 12.24 and 12.25.
\<close>

theorem calculateFresnelRadius_midpoint:
  assumes "0 < wavelength" and "0 < d"
  shows "calculateFresnelRadius wavelength (d / 2) (d / 2)
           = sqrt ((wavelength * (500 * d) * (500 * d)) / (500 * d + 500 * d))
         \<and> calculateWavelength 5 = 0.06
         \<and> calculateFresnelRadius 0.06 (10 / 2) (10 / 2) = sqrt (0.06 * 5000 * 5000 / 10000)
         \<and> calculateFresnelRadius 0.06 (10 / 2) (10 / 2) = sqrt 150
         \<and> 12.24 < calculateFresnelRadius 0.06 (10 / 2) (10 / 2)
         \<and> calculateFresnelRadius 0.06 (10 / 2) (10 / 2) < 12.25"
proof -
  have g: "calculateFresnelRadius wavelength (d / 2) (d / 2)
           = sqrt ((wavelength * (500 * d) * (500 * d)) / (500 * d + 500 * d))"
    using assms by (simp add: calculateFresnelRadius_def)
  have w: "calculateWavelength 5 = 0.06"
    by (simp add: calculateWavelength_def SPEED_OF_LIGHT_def)
  have c: "calculateFresnelRadius 0.06 (10 / 2) (10 / 2) = sqrt 150"
    by (simp add: calculateFresnelRadius_def)
  have e: "sqrt (0.06 * 5000 * 5000 / 10000) = sqrt 150" by simp
  show ?thesis using g w c e sqrt_150_bounds by (simp only:)
qed

theorem calculateFresnelRadius_midpoint_witness:
  "(0::real) < 0.06 \<and> (0::real) < 10
   \<and> calculateFresnelRadius 0.06 (10 / 2) (10 / 2)
       = sqrt ((0.06 * (500 * 10) * (500 * 10)) / (500 * 10 + 500 * 10))"
proof -
  have h1: "(0::real) < 0.06" and h2: "(0::real) < 10" by simp_all
  show ?thesis using calculateFresnelRadius_midpoint [OF h1 h2] by simp
qed

text \<open>
  In exact real arithmetic the Haversine distance is symmetric and zero from a point to itself.
\<close>

lemma calculateDistance_real_symmetric_zero:
  "calculateDistance latA lonA latB lonB = calculateDistance latB lonB latA lonA
   \<and> calculateDistance latA lonA latA lonA = 0"
proof
  have s: "sin (toRadians (p - q) / 2) * sin (toRadians (p - q) / 2)
         = sin (toRadians (q - p) / 2) * sin (toRadians (q - p) / 2)" for p q
  proof -
    have "toRadians (p - q) / 2 = - (toRadians (q - p) / 2)"
      by (simp add: toRadians_def field_simps)
    then show ?thesis by (simp only: sin_minus minus_mult_minus)
  qed
  show "calculateDistance latA lonA latB lonB = calculateDistance latB lonB latA lonA"
    unfolding calculateDistance_def Let_def
    using s [of latB latA] s [of lonB lonA]
    by (simp add: mult.commute mult.left_commute mult.assoc)
  show "calculateDistance latA lonA latA lonA = 0"
    by (simp add: calculateDistance_def toRadians_def atan2_def)
qed

text \<open>
  Claim C7. For all inputs, \<open>calculateBearing lat1 lon1 lat2 lon2\<close> lies in the half-open
  interval from 0 (included) to 360 (excluded).
\<close>

theorem calculateBearing_range:
  "0 \<le> calculateBearing lat1 lon1 lat2 lon2 \<and> calculateBearing lat1 lon1 lat2 lon2 < 360"
proof -
  let ?b = "toDegrees (atan2 (sin (toRadians (lon2 - lon1)) * cos (toRadians lat2))
     (cos (toRadians lat1) * sin (toRadians lat2) -
      sin (toRadians lat1) * cos (toRadians lat2) * cos (toRadians (lon2 - lon1))))"
  have "- 180 < ?b" "?b \<le> 180" using toDegrees_atan2_bounds by blast+
  then have "180 < ?b + 360" "?b + 360 \<le> 540" by linarith+
  then have "0 \<le> js_rem (?b + 360) 360 \<and> js_rem (?b + 360) 360 < 360"
    by (rule js_rem_360_range)
  then show ?thesis by (simp add: calculateBearing_def Let_def)
qed

section \<open>Properties of the calculation functions in double precision\<close>

lemma pow2_powr: "pow2 e = 2 powr (of_int e)"
  by (simp add: pow2_def powr_int)

lemma floor_log2_eq:
  assumes "pow2 k \<le> \<bar>x\<bar>" and "\<bar>x\<bar> < pow2 (k + 1)"
  shows "\<lfloor>log 2 \<bar>x\<bar>\<rfloor> = k"
proof -
  have "0 < pow2 k" by (simp add: pow2_powr)
  then have "0 < \<bar>x\<bar>" using assms(1) by linarith
  then show ?thesis using assms by (simp add: floor_log_eq_powr_iff pow2_powr)
qed

lemma rnd_eqI:
  assumes "pow2 k \<le> \<bar>x\<bar>" and "\<bar>x\<bar> < pow2 (k + 1)"
    and "of_int (round_half_even (x / pow2 (k - 52))) * pow2 (k - 52) = v"
  shows "rnd x = v"
proof -
  have "0 < pow2 k" by (simp add: pow2_powr)
  then have "x \<noteq> 0" using assms(1) by auto
  then show ?thesis
    using floor_log2_eq [OF assms(1,2)] assms(3) by (simp add: rnd_def)
qed

text \<open>
  The two copies of the bearing at (0, 0) and (1, 1), and the distance between (8, 0) and
  (-8, 180) in both orders, evaluated operation by operation.
\<close>

lemma bearing_values:
  "calculateBearing_legacy_double reference_library 0 0 1 1 = 6332572861674669 / 140737488355328
   \<and> calculateBearing_double reference_library 0 0 1 1 = 395785803854667 / 8796093022208"
proof -
  have f0: "fl_sub 1 0 = 1"
    unfolding fl_sub_def
    by (rule rnd_eqI [where k = "0"]) (simp_all add: pow2_def round_half_even_def)
  have f1: "fl_mul 1 (884279719003555 / 281474976710656) = 884279719003555 / 281474976710656"
    unfolding fl_mul_def
    by (rule rnd_eqI [where k = "1"]) (simp_all add: pow2_def round_half_even_def)
  have f2: "fl_div (884279719003555 / 281474976710656) 180 = 5030569068109113 / 288230376151711744"
    unfolding fl_div_def
    by (rule rnd_eqI [where k = "- 6"]) (simp_all add: pow2_def round_half_even_def)
  have f3: "fl_mul 0 (884279719003555 / 281474976710656) = 0"
    by (simp add: fl_mul_def rnd_def)
  have f4: "fl_div 0 180 = 0"
    by (simp add: fl_div_def rnd_def)
  have f5: "Math_sin reference_library (5030569068109113 / 288230376151711744) = 2515156836085391 / 144115188075855872"
    by (simp add: reference_library_def)
  have f6: "Math_cos reference_library (5030569068109113 / 288230376151711744) = 4502913707333573 / 4503599627370496"
    by (simp add: reference_library_def)
  have f7: "fl_mul (2515156836085391 / 144115188075855872) (4502913707333573 / 4503599627370496) = 5029547531033639 / 288230376151711744"
    unfolding fl_mul_def
    by (rule rnd_eqI [where k = "- 6"]) (simp_all add: pow2_def round_half_even_def)
  have f8: "Math_cos reference_library 0 = 1"
    by (simp add: reference_library_def)
  have f9: "fl_mul 1 (2515156836085391 / 144115188075855872) = 2515156836085391 / 144115188075855872"
    unfolding fl_mul_def
    by (rule rnd_eqI [where k = "- 6"]) (simp_all add: pow2_def round_half_even_def)
  have f10: "Math_sin reference_library 0 = 0"
    by (simp add: reference_library_def)
  have f11: "fl_mul 0 (4502913707333573 / 4503599627370496) = 0"
    by (simp add: fl_mul_def rnd_def)
  have f12: "fl_sub (2515156836085391 / 144115188075855872) 0 = 2515156836085391 / 144115188075855872"
    unfolding fl_sub_def
    by (rule rnd_eqI [where k = "- 6"]) (simp_all add: pow2_def round_half_even_def)
  have f13: "Math_atan2 reference_library (5029547531033639 / 288230376151711744) (2515156836085391 / 144115188075855872) = 7073551779754393 / 9007199254740992"
    by (simp add: reference_library_def)
  have f14: "fl_mul (7073551779754393 / 9007199254740992) 180 = 155424721723119 / 1099511627776"
    unfolding fl_mul_def
    by (rule rnd_eqI [where k = "7"]) (simp_all add: pow2_def round_half_even_def)
  have f15: "fl_div (155424721723119 / 1099511627776) (884279719003555 / 281474976710656) = 6332572861674669 / 140737488355328"
    unfolding fl_div_def
    by (rule rnd_eqI [where k = "5"]) (simp_all add: pow2_def round_half_even_def)
  have f16: "fl_add (6332572861674669 / 140737488355328) 360 = 3562379291849547 / 8796093022208"
    unfolding fl_add_def
    by (rule rnd_eqI [where k = "8"]) (simp_all add: pow2_def round_half_even_def)
  have f17: "js_rem (3562379291849547 / 8796093022208) 360 = 395785803854667 / 8796093022208"
    by (simp add: js_rem_def js_trunc_def)
  show ?thesis
    unfolding calculateBearing_legacy_double_def calculateBearing_double_def
      toRadians_double_def toDegrees_double_def Math_PI_def Let_def
    by (simp only: f0 f1 f2 f3 f4 f5 f6 f7 f8 f9 f10 f11 f12 f13 f14 f15 f16 f17 simp_thms)
qed

lemma distance_nan:
  "calculateDistance_double reference_library 8 0 (- 8) 180 = NaN"
proof -
  have f0: "fl_sub (- 8) 8 = - 16"
    unfolding fl_sub_def
    by (rule rnd_eqI [where k = "4"]) (simp_all add: pow2_def round_half_even_def)
  have f1: "fl_mul (- 16) (884279719003555 / 281474976710656) = - (884279719003555 / 17592186044416)"
    unfolding fl_mul_def
    by (rule rnd_eqI [where k = "5"]) (simp_all add: pow2_def round_half_even_def)
  have f2: "fl_div (- (884279719003555 / 17592186044416)) 180 = - (5030569068109113 / 18014398509481984)"
    unfolding fl_div_def
    by (rule rnd_eqI [where k = "- 2"]) (simp_all add: pow2_def round_half_even_def)
  have f3: "fl_sub 180 0 = 180"
    unfolding fl_sub_def
    by (rule rnd_eqI [where k = "7"]) (simp_all add: pow2_def round_half_even_def)
  have f4: "fl_mul 180 (884279719003555 / 281474976710656) = 4974073419394997 / 8796093022208"
    unfolding fl_mul_def
    by (rule rnd_eqI [where k = "9"]) (simp_all add: pow2_def round_half_even_def)
  have f5: "fl_div (4974073419394997 / 8796093022208) 180 = 884279719003555 / 281474976710656"
    unfolding fl_div_def
    by (rule rnd_eqI [where k = "1"]) (simp_all add: pow2_def round_half_even_def)
  have f6: "fl_div (- (5030569068109113 / 18014398509481984)) 2 = - (5030569068109113 / 36028797018963968)"
    unfolding fl_div_def
    by (rule rnd_eqI [where k = "- 3"]) (simp_all add: pow2_def round_half_even_def)
  have f7: "fl_div (884279719003555 / 281474976710656) 2 = 884279719003555 / 562949953421312"
    unfolding fl_div_def
    by (rule rnd_eqI [where k = "0"]) (simp_all add: pow2_def round_half_even_def)
  have f8: "Math_sin reference_library (- (5030569068109113 / 36028797018963968)) = - (5014239404989977 / 36028797018963968)"
    by (simp add: reference_library_def)
  have f9: "fl_mul (- (5014239404989977 / 36028797018963968)) (- (5014239404989977 / 36028797018963968)) = 1395694493897217 / 72057594037927936"
    unfolding fl_mul_def
    by (rule rnd_eqI [where k = "- 6"]) (simp_all add: pow2_def round_half_even_def)
  have f10: "fl_mul 8 (884279719003555 / 281474976710656) = 884279719003555 / 35184372088832"
    unfolding fl_mul_def
    by (rule rnd_eqI [where k = "4"]) (simp_all add: pow2_def round_half_even_def)
  have f11: "fl_div (884279719003555 / 35184372088832) 180 = 5030569068109113 / 36028797018963968"
    unfolding fl_div_def
    by (rule rnd_eqI [where k = "- 3"]) (simp_all add: pow2_def round_half_even_def)
  have f12: "Math_cos reference_library (5030569068109113 / 36028797018963968) = 4459770905381437 / 4503599627370496"
    by (simp add: reference_library_def)
  have f13: "fl_mul (- 8) (884279719003555 / 281474976710656) = - (884279719003555 / 35184372088832)"
    unfolding fl_mul_def
    by (rule rnd_eqI [where k = "4"]) (simp_all add: pow2_def round_half_even_def)
  have f14: "fl_div (- (884279719003555 / 35184372088832)) 180 = - (5030569068109113 / 36028797018963968)"
    unfolding fl_div_def
    by (rule rnd_eqI [where k = "- 3"]) (simp_all add: pow2_def round_half_even_def)
  have f15: "Math_cos reference_library (- (5030569068109113 / 36028797018963968)) = 4459770905381437 / 4503599627370496"
    by (simp add: reference_library_def)
  have f16: "Math_sin reference_library (884279719003555 / 562949953421312) = 1"
    by (simp add: reference_library_def)
  have f17: "fl_mul (4459770905381437 / 4503599627370496) (4459770905381437 / 4503599627370496) = 8832737443003841 / 9007199254740992"
    unfolding fl_mul_def
    by (rule rnd_eqI [where k = "- 1"]) (simp_all add: pow2_def round_half_even_def)
  have f18: "fl_mul (8832737443003841 / 9007199254740992) 1 = 8832737443003841 / 9007199254740992"
    unfolding fl_mul_def
    by (rule rnd_eqI [where k = "- 1"]) (simp_all add: pow2_def round_half_even_def)
  have f19: "fl_add (1395694493897217 / 72057594037927936) (8832737443003841 / 9007199254740992) = 4503599627370497 / 4503599627370496"
    unfolding fl_add_def
    by (rule rnd_eqI [where k = "0"]) (simp_all add: pow2_def round_half_even_def)
  have f20: "fl_sub 1 (4503599627370497 / 4503599627370496) = - (1 / 4503599627370496)"
    unfolding fl_sub_def
    by (rule rnd_eqI [where k = "- 52"]) (simp_all add: pow2_def round_half_even_def)
  have n: "js_sqrt reference_library (- (1 / 4503599627370496)) = NaN"
    by (simp add: js_sqrt_def)
  show ?thesis
    unfolding calculateDistance_double_def
      toRadians_double_def Math_PI_def Let_def
    by (simp only: f0 f1 f2 f3 f4 f5 f6 f7 f8 f9 f10 f11 f12 f13 f14 f15 f16 f17 f18 f19 f20 n js_number.case split: js_number.split) simp
qed

lemma distance_nan_swapped:
  "calculateDistance_double reference_library (- 8) 180 8 0 = NaN"
proof -
  have f0: "fl_sub 8 (- 8) = 16"
    unfolding fl_sub_def
    by (rule rnd_eqI [where k = "4"]) (simp_all add: pow2_def round_half_even_def)
  have f1: "fl_mul 16 (884279719003555 / 281474976710656) = 884279719003555 / 17592186044416"
    unfolding fl_mul_def
    by (rule rnd_eqI [where k = "5"]) (simp_all add: pow2_def round_half_even_def)
  have f2: "fl_div (884279719003555 / 17592186044416) 180 = 5030569068109113 / 18014398509481984"
    unfolding fl_div_def
    by (rule rnd_eqI [where k = "- 2"]) (simp_all add: pow2_def round_half_even_def)
  have f3: "fl_sub 0 180 = - 180"
    unfolding fl_sub_def
    by (rule rnd_eqI [where k = "7"]) (simp_all add: pow2_def round_half_even_def)
  have f4: "fl_mul (- 180) (884279719003555 / 281474976710656) = - (4974073419394997 / 8796093022208)"
    unfolding fl_mul_def
    by (rule rnd_eqI [where k = "9"]) (simp_all add: pow2_def round_half_even_def)
  have f5: "fl_div (- (4974073419394997 / 8796093022208)) 180 = - (884279719003555 / 281474976710656)"
    unfolding fl_div_def
    by (rule rnd_eqI [where k = "1"]) (simp_all add: pow2_def round_half_even_def)
  have f6: "fl_div (5030569068109113 / 18014398509481984) 2 = 5030569068109113 / 36028797018963968"
    unfolding fl_div_def
    by (rule rnd_eqI [where k = "- 3"]) (simp_all add: pow2_def round_half_even_def)
  have f7: "fl_div (- (884279719003555 / 281474976710656)) 2 = - (884279719003555 / 562949953421312)"
    unfolding fl_div_def
    by (rule rnd_eqI [where k = "0"]) (simp_all add: pow2_def round_half_even_def)
  have f8: "Math_sin reference_library (5030569068109113 / 36028797018963968) = 5014239404989977 / 36028797018963968"
    by (simp add: reference_library_def)
  have f9: "fl_mul (5014239404989977 / 36028797018963968) (5014239404989977 / 36028797018963968) = 1395694493897217 / 72057594037927936"
    unfolding fl_mul_def
    by (rule rnd_eqI [where k = "- 6"]) (simp_all add: pow2_def round_half_even_def)
  have f10: "fl_mul (- 8) (884279719003555 / 281474976710656) = - (884279719003555 / 35184372088832)"
    unfolding fl_mul_def
    by (rule rnd_eqI [where k = "4"]) (simp_all add: pow2_def round_half_even_def)
  have f11: "fl_div (- (884279719003555 / 35184372088832)) 180 = - (5030569068109113 / 36028797018963968)"
    unfolding fl_div_def
    by (rule rnd_eqI [where k = "- 3"]) (simp_all add: pow2_def round_half_even_def)
  have f12: "Math_cos reference_library (- (5030569068109113 / 36028797018963968)) = 4459770905381437 / 4503599627370496"
    by (simp add: reference_library_def)
  have f13: "fl_mul 8 (884279719003555 / 281474976710656) = 884279719003555 / 35184372088832"
    unfolding fl_mul_def
    by (rule rnd_eqI [where k = "4"]) (simp_all add: pow2_def round_half_even_def)
  have f14: "fl_div (884279719003555 / 35184372088832) 180 = 5030569068109113 / 36028797018963968"
    unfolding fl_div_def
    by (rule rnd_eqI [where k = "- 3"]) (simp_all add: pow2_def round_half_even_def)
  have f15: "Math_cos reference_library (5030569068109113 / 36028797018963968) = 4459770905381437 / 4503599627370496"
    by (simp add: reference_library_def)
  have f16: "Math_sin reference_library (- (884279719003555 / 562949953421312)) = - 1"
    by (simp add: reference_library_def)
  have f17: "fl_mul (4459770905381437 / 4503599627370496) (4459770905381437 / 4503599627370496) = 8832737443003841 / 9007199254740992"
    unfolding fl_mul_def
    by (rule rnd_eqI [where k = "- 1"]) (simp_all add: pow2_def round_half_even_def)
  have f18: "fl_mul (8832737443003841 / 9007199254740992) (- 1) = - (8832737443003841 / 9007199254740992)"
    unfolding fl_mul_def
    by (rule rnd_eqI [where k = "- 1"]) (simp_all add: pow2_def round_half_even_def)
  have f19: "fl_mul (- (8832737443003841 / 9007199254740992)) (- 1) = 8832737443003841 / 9007199254740992"
    unfolding fl_mul_def
    by (rule rnd_eqI [where k = "- 1"]) (simp_all add: pow2_def round_half_even_def)
  have f20: "fl_add (1395694493897217 / 72057594037927936) (8832737443003841 / 9007199254740992) = 4503599627370497 / 4503599627370496"
    unfolding fl_add_def
    by (rule rnd_eqI [where k = "0"]) (simp_all add: pow2_def round_half_even_def)
  have f21: "fl_sub 1 (4503599627370497 / 4503599627370496) = - (1 / 4503599627370496)"
    unfolding fl_sub_def
    by (rule rnd_eqI [where k = "- 52"]) (simp_all add: pow2_def round_half_even_def)
  have n: "js_sqrt reference_library (- (1 / 4503599627370496)) = NaN"
    by (simp add: js_sqrt_def)
  show ?thesis
    unfolding calculateDistance_double_def
      toRadians_double_def Math_PI_def Let_def
    by (simp only: f0 f1 f2 f3 f4 f5 f6 f7 f8 f9 f10 f11 f12 f13 f14 f15 f16 f17 f18 f19 f20 f21 n js_number.case split: js_number.split) simp
qed


lemma round_half_even_error: "\<bar>of_int (round_half_even y) - y\<bar> \<le> 1 / 2"
proof -
  have "of_int \<lfloor>y\<rfloor> \<le> y" "y < of_int \<lfloor>y\<rfloor> + 1" by linarith+
  then show ?thesis by (auto simp: round_half_even_def Let_def)
qed

lemma round_half_even_ge: "of_int n \<le> y \<Longrightarrow> n \<le> round_half_even y"
proof -
  assume "of_int n \<le> y"
  then have "n \<le> \<lfloor>y\<rfloor>" by (simp add: le_floor_iff)
  then show ?thesis by (auto simp: round_half_even_def Let_def)
qed

lemma round_half_even_le: "y \<le> of_int n \<Longrightarrow> round_half_even y \<le> n"
proof -
  assume a: "y \<le> of_int n"
  show ?thesis
  proof (cases "y = of_int n")
    case True
    then show ?thesis by (simp add: round_half_even_def)
  next
    case False
    then have "y < of_int n" using a by simp
    then have "\<lfloor>y\<rfloor> < n" by (simp add: floor_less_iff)
    then show ?thesis by (auto simp: round_half_even_def Let_def)
  qed
qed

lemma rnd_plus_360:
  assumes "0 \<le> b" and "b \<le> 180"
  shows "360 \<le> rnd (b + 360) \<and> rnd (b + 360) \<le> 540
         \<and> \<bar>rnd (b + 360) - (b + 360)\<bar> \<le> 1 / 2 ^ 44"
proof (cases "b + 360 < 512")
  case True
  let ?y = "(b + 360) * 2 ^ 44"
  have r: "rnd (b + 360) = of_int (round_half_even ?y) / 2 ^ 44"
    by (rule rnd_eqI [where k = 8]) (use assms True in \<open>simp_all add: pow2_def\<close>)
  have lo: "(360 * 2 ^ 44 :: int) \<le> round_half_even ?y"
    by (rule round_half_even_ge) (use assms in simp)
  have hi: "round_half_even ?y \<le> (540 * 2 ^ 44 :: int)"
    by (rule round_half_even_le) (use assms in simp)
  have lo': "(360 * 2 ^ 44 :: real) \<le> of_int (round_half_even ?y)"
    using lo by (metis of_int_le_iff of_int_numeral of_int_mult of_int_power)
  have hi': "of_int (round_half_even ?y) \<le> (540 * 2 ^ 44 :: real)"
    using hi by (metis of_int_le_iff of_int_numeral of_int_mult of_int_power)
  have e: "\<bar>of_int (round_half_even ?y) - ?y\<bar> \<le> 1 / 2" by (rule round_half_even_error)
  have "\<bar>rnd (b + 360) - (b + 360)\<bar> = \<bar>of_int (round_half_even ?y) - ?y\<bar> / 2 ^ 44"
    unfolding r by (simp add: field_simps abs_mult [symmetric] abs_divide)
  then have "\<bar>rnd (b + 360) - (b + 360)\<bar> \<le> 1 / 2 ^ 44"
    using e by (simp add: field_simps)
  moreover have "360 \<le> rnd (b + 360)" unfolding r using lo' by (simp add: field_simps)
  moreover have "rnd (b + 360) \<le> 540" unfolding r using hi' by (simp add: field_simps)
  ultimately show ?thesis by simp
next
  case False
  let ?y = "(b + 360) * 2 ^ 43"
  have r: "rnd (b + 360) = of_int (round_half_even ?y) / 2 ^ 43"
    by (rule rnd_eqI [where k = 9]) (use assms False in \<open>simp_all add: pow2_def\<close>)
  have lo: "(360 * 2 ^ 43 :: int) \<le> round_half_even ?y"
    by (rule round_half_even_ge) (use assms in simp)
  have hi: "round_half_even ?y \<le> (540 * 2 ^ 43 :: int)"
    by (rule round_half_even_le) (use assms in simp)
  have lo': "(360 * 2 ^ 43 :: real) \<le> of_int (round_half_even ?y)"
    using lo by (metis of_int_le_iff of_int_numeral of_int_mult of_int_power)
  have hi': "of_int (round_half_even ?y) \<le> (540 * 2 ^ 43 :: real)"
    using hi by (metis of_int_le_iff of_int_numeral of_int_mult of_int_power)
  have e: "\<bar>of_int (round_half_even ?y) - ?y\<bar> \<le> 1 / 2" by (rule round_half_even_error)
  have "\<bar>rnd (b + 360) - (b + 360)\<bar> = \<bar>of_int (round_half_even ?y) - ?y\<bar> / 2 ^ 43"
    unfolding r by (simp add: field_simps abs_mult [symmetric] abs_divide)
  then have "\<bar>rnd (b + 360) - (b + 360)\<bar> \<le> 1 / 2 ^ 44"
    using e by (simp add: field_simps)
  moreover have "360 \<le> rnd (b + 360)" unfolding r using lo' by (simp add: field_simps)
  moreover have "rnd (b + 360) \<le> 540" unfolding r using hi' by (simp add: field_simps)
  ultimately show ?thesis by simp
qed

lemma js_rem_360_sub:
  assumes "360 \<le> t" and "t \<le> 540"
  shows "js_rem t 360 = t - 360"
proof -
  have "\<lfloor>t / 360\<rfloor> = 1" using assms by (simp add: floor_eq_iff)
  then show ?thesis using assms by (simp add: js_rem_def js_trunc_def)
qed

text \<open>
  Claim C6. The claim is that \<open>calculateDistance A B = calculateDistance B A\<close> for all pairs.
  Between (8, 0) and (-8, 180) the sum \<open>a\<close> rounds to \<open>1 + 2 ^ -52\<close>, so \<open>1 - a\<close> is negative,
  \<^verbatim>\<open>Math.sqrt(1 - a)\<close> is NaN and the distance is NaN in both orders; NaN is not equal to NaN.
  The formula has no clamp of \<open>a\<close> to the interval from 0 to 1.
\<close>

theorem calculateDistance_double_antipodal_nan:
  "calculateDistance_double reference_library 8 0 (- 8) 180 = NaN
   \<and> calculateDistance_double reference_library (- 8) 180 8 0 = NaN
   \<and> \<not> js_equals (calculateDistance_double reference_library 8 0 (- 8) 180)
                   (calculateDistance_double reference_library (- 8) 180 8 0)"
  using distance_nan distance_nan_swapped by simp

text \<open>
  Claim C10. In the program's double arithmetic the first copy's result is the second
  copy's result plus 360, modulo 360, for every library and all inputs. When the second
  copy's result lies between 0 and 180, the first copy's result lies there too and differs
  from it by at most \<open>2 ^ -44\<close>, the rounding of the addition of 360. In exact real
  arithmetic the same relation holds and the two results are equal whenever the second is
  not negative.
\<close>

theorem calculateBearing_copies_agree_up_to_rounding:
  "calculateBearing_double M lat1 lon1 lat2 lon2
     = js_rem (fl_add (calculateBearing_legacy_double M lat1 lon1 lat2 lon2) 360) 360
   \<and> (0 \<le> calculateBearing_legacy_double M lat1 lon1 lat2 lon2 \<and>
      calculateBearing_legacy_double M lat1 lon1 lat2 lon2 \<le> 180 \<longrightarrow>
        0 \<le> calculateBearing_double M lat1 lon1 lat2 lon2
        \<and> calculateBearing_double M lat1 lon1 lat2 lon2 \<le> 180
        \<and> \<bar>calculateBearing_double M lat1 lon1 lat2 lon2
            - calculateBearing_legacy_double M lat1 lon1 lat2 lon2\<bar> \<le> 1 / 2 ^ 44)
   \<and> calculateBearing lat1 lon1 lat2 lon2
       = js_rem (calculateBearing_legacy lat1 lon1 lat2 lon2 + 360) 360
   \<and> (0 \<le> calculateBearing_legacy lat1 lon1 lat2 lon2 \<longrightarrow>
        calculateBearing lat1 lon1 lat2 lon2 = calculateBearing_legacy lat1 lon1 lat2 lon2)"
proof -
  let ?b = "calculateBearing_legacy_double M lat1 lon1 lat2 lon2"
  let ?f = "calculateBearing_double M lat1 lon1 lat2 lon2"
  have d: "?f = js_rem (fl_add ?b 360) 360"
    by (simp add: calculateBearing_double_def calculateBearing_legacy_double_def Let_def)
  have n: "0 \<le> ?f \<and> ?f \<le> 180 \<and> \<bar>?f - ?b\<bar> \<le> 1 / 2 ^ 44" if "0 \<le> ?b" "?b \<le> 180"
  proof -
    note r = rnd_plus_360 [OF that]
    have f: "?f = rnd (?b + 360) - 360"
      unfolding d fl_add_def using r by (simp add: js_rem_360_sub)
    have "rnd (?b + 360) - 360 - ?b = rnd (?b + 360) - (?b + 360)" by simp
    then have "\<bar>?f - ?b\<bar> \<le> 1 / 2 ^ 44" unfolding f using r by (simp only:)
    moreover have "0 \<le> ?f" "?f \<le> 180" unfolding f using r by linarith+
    ultimately show ?thesis by simp
  qed
  have r: "calculateBearing lat1 lon1 lat2 lon2
             = js_rem (calculateBearing_legacy lat1 lon1 lat2 lon2 + 360) 360"
    by (simp add: calculateBearing_def calculateBearing_legacy_def Let_def)
  have u: "calculateBearing_legacy lat1 lon1 lat2 lon2 \<le> 180"
    using toDegrees_atan2_bounds by (simp add: calculateBearing_legacy_def Let_def)
  show ?thesis using d n r u js_rem_360_id by simp
qed

theorem calculateBearing_copies_agree_up_to_rounding_witness:
  "0 \<le> calculateBearing_legacy_double reference_library 0 0 1 1
   \<and> calculateBearing_legacy_double reference_library 0 0 1 1 \<le> 180
   \<and> \<bar>calculateBearing_double reference_library 0 0 1 1
       - calculateBearing_legacy_double reference_library 0 0 1 1\<bar> = 3 / 2 ^ 47
   \<and> \<bar>calculateBearing_double reference_library 0 0 1 1
       - calculateBearing_legacy_double reference_library 0 0 1 1\<bar> \<le> 1 / 2 ^ 44
   \<and> 0 \<le> calculateBearing_legacy 0 0 0 90
   \<and> calculateBearing 0 0 0 90 = calculateBearing_legacy 0 0 0 90"
proof -
  have v: "calculateBearing_legacy 0 0 0 90 = 90"
    by (simp add: calculateBearing_legacy_def toRadians_def toDegrees_def atan2_def)
  have b: "0 \<le> calculateBearing_legacy_double reference_library 0 0 1 1"
    "calculateBearing_legacy_double reference_library 0 0 1 1 \<le> 180"
    "\<bar>calculateBearing_double reference_library 0 0 1 1
       - calculateBearing_legacy_double reference_library 0 0 1 1\<bar> = 3 / 2 ^ 47"
    using bearing_values by simp_all
  show ?thesis
    using calculateBearing_copies_agree_up_to_rounding [of reference_library 0 0 1 1]
      calculateBearing_copies_agree_up_to_rounding [of reference_library 0 0 0 90] v b
    by simp
qed

text \<open>
  Exact agreement fails in doubles: from (0, 0) to (1, 1) the legacy copy returns
  44.99563645534486 and the first copy 44.99563645534488.
\<close>

theorem calculateBearing_exact_agreement_counterexample:
  "calculateBearing_legacy_double reference_library 0 0 1 1
     = 6332572861674669 / 140737488355328
   \<and> calculateBearing_double reference_library 0 0 1 1 = 395785803854667 / 8796093022208
   \<and> 0 \<le> calculateBearing_legacy_double reference_library 0 0 1 1
   \<and> calculateBearing_double reference_library 0 0 1 1
       \<noteq> calculateBearing_legacy_double reference_library 0 0 1 1"
  using bearing_values by simp

section \<open>Properties of the arrays and of link deletion\<close>

lemma findIndex_None_iff: "findIndex P xs = None \<longleftrightarrow> (\<forall>x\<in>set xs. \<not> P x)"
  by (induction xs) auto

lemma findIndex_Some:
  "findIndex P xs = Some i \<Longrightarrow> i < length xs \<and> P (xs ! i)"
proof (induction xs arbitrary: i)
  case Nil
  then show ?case by simp
next
  case (Cons x xs)
  then show ?case by (auto split: if_splits)
qed

lemma splice1_Cons_Suc: "splice1 (Suc i) (x # xs) = x # splice1 i xs"
  by (simp add: splice1_def)

lemma splice1_0: "splice1 0 (x # xs) = xs"
  by (simp add: splice1_def)

lemma filter_neq_id: "a \<notin> f ` set xs \<Longrightarrow> filter (\<lambda>l. f l \<noteq> a) xs = xs"
  by (induction xs) auto

lemma splice_findIndex_filter:
  "distinct (map f xs) \<Longrightarrow>
   (case findIndex (\<lambda>l. f l = a) xs of None \<Rightarrow> xs | Some i \<Rightarrow> splice1 i xs)
     = filter (\<lambda>l. f l \<noteq> a) xs"
proof (induction xs)
  case Nil
  then show ?case by simp
next
  case (Cons x xs)
  show ?case
  proof (cases "f x = a")
    case True
    then have "a \<notin> f ` set xs" using Cons.prems by auto
    then show ?thesis using True by (simp add: splice1_0 filter_neq_id)
  next
    case False
    then show ?thesis using Cons
      by (cases "findIndex (\<lambda>l. f l = a) xs") (simp_all add: splice1_Cons_Suc)
  qed
qed

lemma performDeleteLink_links:
  assumes "distinct (map link_id (links s))"
  shows "links (performDeleteLink a s) = filter (\<lambda>l. link_id l \<noteq> a) (links s)"
  using splice_findIndex_filter [OF assms, of a]
  by (simp add: performDeleteLink_def Let_def split: option.splits)

lemma performDeleteLink_active:
  "activeLinkForFresnel (performDeleteLink a s) =
     (if activeLinkForFresnel s = Some a \<and> a \<in> link_id ` set (links s) then None
      else activeLinkForFresnel s)"
proof (cases "findIndex (\<lambda>l. link_id l = a) (links s)")
  case None
  then have "a \<notin> link_id ` set (links s)" by (auto simp: findIndex_None_iff)
  then show ?thesis using None by (simp add: performDeleteLink_def)
next
  case (Some i)
  then have "a \<in> link_id ` set (links s)"
    using findIndex_Some [OF Some] by (metis (mono_tags, lifting) image_eqI nth_mem)
  then show ?thesis using Some by (simp add: performDeleteLink_def Let_def)
qed

lemma performDeleteLink_other:
  "towers (performDeleteLink a s) = towers s"
  "heap (performDeleteLink a s) = heap s"
  "linkIdCounter (performDeleteLink a s) = linkIdCounter s"
  "selectedTowers (performDeleteLink a s) = selectedTowers s"
  by (simp_all add: performDeleteLink_def Let_def split: option.splits)

lemma fold_delete_other:
  "towers (fold (\<lambda>l. performDeleteLink (link_id l)) ls s) = towers s
   \<and> heap (fold (\<lambda>l. performDeleteLink (link_id l)) ls s) = heap s
   \<and> linkIdCounter (fold (\<lambda>l. performDeleteLink (link_id l)) ls s) = linkIdCounter s
   \<and> selectedTowers (fold (\<lambda>l. performDeleteLink (link_id l)) ls s) = selectedTowers s"
  by (induction ls arbitrary: s) (simp_all add: performDeleteLink_other)

lemma fold_delete_links:
  "distinct (map link_id (links s)) \<Longrightarrow>
   links (fold (\<lambda>l. performDeleteLink (link_id l)) ls s)
     = filter (\<lambda>l. link_id l \<notin> link_id ` set ls) (links s)"
proof (induction ls arbitrary: s)
  case Nil
  then show ?case by simp
next
  case (Cons x ls)
  have d: "distinct (map link_id (links (performDeleteLink (link_id x) s)))"
    using Cons.prems by (simp add: performDeleteLink_links distinct_map_filter)
  show ?case
    using Cons.IH [OF d] Cons.prems
    by (simp add: performDeleteLink_links)
qed

lemma fold_delete_active:
  "distinct (map link_id (links s)) \<Longrightarrow>
   activeLinkForFresnel (fold (\<lambda>l. performDeleteLink (link_id l)) ls s)
     = (if \<exists>l\<in>set ls. activeLinkForFresnel s = Some (link_id l)
                        \<and> link_id l \<in> link_id ` set (links s)
        then None else activeLinkForFresnel s)"
proof (induction ls arbitrary: s)
  case Nil
  then show ?case by simp
next
  case (Cons x ls)
  let ?s1 = "performDeleteLink (link_id x) s"
  have d: "distinct (map link_id (links ?s1))"
    using Cons.prems by (simp add: performDeleteLink_links distinct_map_filter)
  have l1: "links ?s1 = filter (\<lambda>l. link_id l \<noteq> link_id x) (links s)"
    using Cons.prems by (rule performDeleteLink_links)
  show ?case
  proof (cases "activeLinkForFresnel s = Some (link_id x) \<and> link_id x \<in> link_id ` set (links s)")
    case True
    then have "activeLinkForFresnel ?s1 = None" by (simp add: performDeleteLink_active)
    then have "activeLinkForFresnel (fold (\<lambda>l. performDeleteLink (link_id l)) ls ?s1) = None"
      using Cons.IH [OF d] by simp
    then show ?thesis using True by auto
  next
    case False
    then have a: "activeLinkForFresnel ?s1 = activeLinkForFresnel s"
      by (simp add: performDeleteLink_active)
    have e: "(\<exists>l\<in>set ls. activeLinkForFresnel s = Some (link_id l)
                        \<and> link_id l \<in> link_id ` set (links ?s1))
        = (\<exists>l\<in>set (x # ls). activeLinkForFresnel s = Some (link_id l)
                        \<and> link_id l \<in> link_id ` set (links s))"
    proof -
      have ids: "link_id ` set (links ?s1) = link_id ` set (links s) - {link_id x}"
        unfolding l1 by auto
      show ?thesis unfolding ids using False by auto
    qed
    have "activeLinkForFresnel (fold (\<lambda>l. performDeleteLink (link_id l)) ls ?s1)
        = (if \<exists>l\<in>set ls. activeLinkForFresnel ?s1 = Some (link_id l)
                        \<and> link_id l \<in> link_id ` set (links ?s1)
           then None else activeLinkForFresnel ?s1)"
      by (rule Cons.IH [OF d])
    also have "\<dots> = (if \<exists>l\<in>set ls. activeLinkForFresnel s = Some (link_id l)
                        \<and> link_id l \<in> link_id ` set (links ?s1)
           then None else activeLinkForFresnel s)"
      by (simp only: a)
    also have "\<dots> = (if \<exists>l\<in>set (x # ls). activeLinkForFresnel s = Some (link_id l)
                        \<and> link_id l \<in> link_id ` set (links s)
           then None else activeLinkForFresnel s)"
      by (simp only: e)
    finally show ?thesis by simp
  qed
qed

section \<open>The invariant holds in every reachable state\<close>

lemma links_inv_same:
  "links s' = links s \<Longrightarrow> linkIdCounter s' = linkIdCounter s \<Longrightarrow> links_inv s \<Longrightarrow> links_inv s'"
  by (simp add: links_inv_def)

lemma links_inv_performDeleteLink: "links_inv s \<Longrightarrow> links_inv (performDeleteLink a s)"
  by (simp add: links_inv_def performDeleteLink_links performDeleteLink_other
      distinct_map_filter list_all_iff)

lemma links_inv_fold_delete:
  "links_inv s \<Longrightarrow> links_inv (fold (\<lambda>l. performDeleteLink (link_id l)) ls s)"
  by (induction ls arbitrary: s) (simp_all add: links_inv_performDeleteLink)

lemma links_inv_performDeleteTower: "links_inv s \<Longrightarrow> links_inv (performDeleteTower t s)"
proof -
  assume i: "links_inv s"
  show ?thesis
  proof (cases "findIndex (\<lambda>r. tower_id (heap s r) = t) (towers s)")
    case None
    then show ?thesis using i by (simp add: performDeleteTower_def)
  next
    case (Some k)
    have "links_inv (fold (\<lambda>l. performDeleteLink (link_id l))
            (filter (\<lambda>l. tower_id (heap s (tower1 l)) = t \<or> tower_id (heap s (tower2 l)) = t)
               (links s)) s)"
      using i by (rule links_inv_fold_delete)
    then show ?thesis using Some
      by (simp add: performDeleteTower_def Let_def links_inv_def)
  qed
qed

lemma links_inv_createLink: "links_inv s \<Longrightarrow> links_inv (snd (createLink a b s))"
  by (auto simp: links_inv_def createLink_def Let_def list_all_iff)

lemma links_inv_clear: "links_inv s \<Longrightarrow> links_inv (clearTowerSelection s)"
  by (simp add: links_inv_def clearTowerSelection_def)

lemma links_inv_selected: "links_inv s \<Longrightarrow> links_inv (s\<lparr>selectedTowers := x\<rparr>)"
  by (simp add: links_inv_def)

lemma links_inv_handleTowerClickForLink:
  "links_inv s \<Longrightarrow> links_inv (snd (handleTowerClickForLink r s))"
  unfolding handleTowerClickForLink_def Let_def
  by (auto simp: split_beta links_inv_clear links_inv_selected links_inv_createLink
      split: option.splits)

lemma links_inv_showConfirmationModal:
  "links_inv s \<Longrightarrow> links_inv (showConfirmationModal cb rp k s)"
  by (simp add: links_inv_def showConfirmationModal_def Let_def)

lemma links_inv_hideConfirmationModal:
  "links_inv s \<Longrightarrow> links_inv (hideConfirmationModal s)"
  by (simp add: links_inv_def hideConfirmationModal_def)

lemma links_inv_heap: "links_inv s \<Longrightarrow> links_inv (s\<lparr>heap := h\<rparr>)"
  by (simp add: links_inv_def)

lemma links_inv_updateTowerFrequency:
  "links_inv s \<Longrightarrow> links_inv (updateTowerFrequency t f s)"
  unfolding updateTowerFrequency_def Let_def
  by (auto simp: links_inv_showConfirmationModal links_inv_heap split: option.splits)

lemma links_inv_resume:
  "links_inv s \<Longrightarrow> links_inv (updateTowerFrequency_resume k c s)"
  unfolding updateTowerFrequency_resume_def Let_def
  by (auto simp: links_inv_heap)

lemma links_inv_runCallback: "links_inv s \<Longrightarrow> links_inv (runCallback cb s)"
  by (cases cb)
    (simp_all add: links_inv_performDeleteTower links_inv_performDeleteLink links_inv_fold_delete)

lemma links_inv_handleConfirm: "links_inv s \<Longrightarrow> links_inv (snd (handleConfirm m s))"
  unfolding handleConfirm_def Let_def
  by (auto simp: links_inv_runCallback links_inv_hideConfirmationModal links_inv_resume
      split: option.splits)

lemma links_inv_handleCancel: "links_inv s \<Longrightarrow> links_inv (snd (handleCancel m s))"
  unfolding handleCancel_def Let_def
  by (auto simp: links_inv_hideConfirmationModal links_inv_resume split: option.splits)

lemma links_inv_fire:
  assumes i: "links_inv s"
  shows "links_inv (fire e s)"
proof (cases e)
  case (MapClick x)
  then show ?thesis using i by (auto simp: handleMapClick_def links_inv_def)
next
  case (SaveTowerClick nm f)
  then show ?thesis using i
    by (auto simp: saveTower_def addTower_def hideTowerModal_def links_inv_def Let_def
        split: option.splits)
next
  case CancelTowerClick
  then show ?thesis using i by (auto simp: hideTowerModal_def links_inv_def)
next
  case (TowerMarkerClick r)
  then show ?thesis using i by (auto simp: links_inv_handleTowerClickForLink)
next
  case (ModeButtonClick m)
  then show ?thesis using i by (auto simp: setMode_def clearTowerSelection_def links_inv_def)
next
  case (DeleteTowerClick t)
  then show ?thesis using i
    by (auto simp: requestDeleteTower_def links_inv_showConfirmationModal split: option.splits)
next
  case (DeleteLinkClick l)
  then show ?thesis using i
    by (auto simp: deleteLink_def links_inv_showConfirmationModal split: option.splits)
next
  case (FrequencyChange t f)
  then show ?thesis using i by (simp add: links_inv_updateTowerFrequency)
next
  case (LinkClick l)
  then show ?thesis using i
    by (auto simp: showFresnelZone_def deactivateActiveFresnelZone_def links_inv_def Let_def)
next
  case ConfirmClick
  then show ?thesis using i by (auto simp: links_inv_handleConfirm split: option.splits)
next
  case CancelConfirmClick
  then show ?thesis using i by (auto simp: links_inv_handleCancel split: option.splits)
next
  case ModalBackdropClick
  then show ?thesis using i by (simp add: links_inv_hideConfirmationModal)
qed

lemma reachable_links_inv: "reachable s \<Longrightarrow> links_inv s"
proof (induction rule: reachable.induct)
  case reachable_init
  then show ?case by (simp add: links_inv_def initial_state_def)
next
  case (reachable_step s e)
  then show ?case by (simp add: links_inv_fire)
qed

lemma reachable_run: "reachable s \<Longrightarrow> all_enabled es s \<Longrightarrow> reachable (run es s)"
  by (induction es arbitrary: s) (auto intro: reachable_step)

lemma filter_distinct_le1:
  "distinct (map f xs) \<Longrightarrow> length (filter (\<lambda>x. a = Some (f x)) xs) \<le> 1"
proof (induction xs)
  case Nil
  then show ?case by simp
next
  case (Cons x xs)
  show ?case
  proof (cases "a = Some (f x)")
    case True
    then have "filter (\<lambda>x. a = Some (f x)) xs = []" using Cons.prems by (auto simp: filter_empty_conv)
    then show ?thesis using True by simp
  next
    case False
    then show ?thesis using Cons by simp
  qed
qed

lemma filter_distinct_single:
  "distinct (map f xs) \<Longrightarrow> y \<in> set xs \<Longrightarrow> filter (\<lambda>x. Some (f y) = Some (f x)) xs = [y]"
proof (induction xs)
  case Nil
  then show ?case by simp
next
  case (Cons x xs)
  show ?case
  proof (cases "x = y")
    case True
    then have "filter (\<lambda>x. f y = f x) xs = []" using Cons.prems by (auto simp: filter_empty_conv)
    then show ?thesis using True by simp
  next
    case False
    then have "y \<in> set xs" using Cons.prems by simp
    moreover have "f x \<noteq> f y" using Cons.prems \<open>y \<in> set xs\<close> by auto
    ultimately show ?thesis using Cons by simp
  qed
qed

section \<open>The example sessions, evaluated\<close>

lemmas handler_defs = initial_state_def handleMapClick_def saveTower_def addTower_def
  hideTowerModal_def setMode_def clearTowerSelection_def handleTowerClickForLink_def
  createLink_def splice1_def Let_def

lemma triangle_state_value:
  "triangle_state = \<lparr>mode = ''addLink'', towers = [0, 1, 2],
      links = [\<lparr>link_id = 1, tower1 = 0, tower2 = 1, link_frequency = 5,
                 distance = calculateDistance 0 0 0 1\<rparr>,
               \<lparr>link_id = 2, tower1 = 0, tower2 = 2, link_frequency = 5,
                 distance = calculateDistance 0 0 1 0\<rparr>,
               \<lparr>link_id = 3, tower1 = 1, tower2 = 2, link_frequency = 5,
                 distance = calculateDistance 0 1 1 0\<rparr>],
      selectedTowers = [], towerIdCounter = 4, linkIdCounter = 4,
      pendingTowerLocation = None, activeLinkForFresnel = None,
      confirmAction = None, confirmModal = None,
      heap = (\<lambda>r. no_tower)
        (0 := \<lparr>tower_id = 1, name = ''Tower 1'', frequency = 5, lat = 0, lng = 0\<rparr>,
         1 := \<lparr>tower_id = 2, name = ''Tower 2'', frequency = 5, lat = 0, lng = 1\<rparr>,
         2 := \<lparr>tower_id = 3, name = ''Tower 3'', frequency = 5, lat = 1, lng = 0\<rparr>),
      nextRef = 3\<rparr>"
  by (simp add: triangle_state_def handler_defs eval_nat_numeral)

lemma one_tower_state_value:
  "one_tower_state = \<lparr>mode = ''addTower'', towers = [0], links = [],
      selectedTowers = [], towerIdCounter = 2, linkIdCounter = 1,
      pendingTowerLocation = None, activeLinkForFresnel = None,
      confirmAction = None, confirmModal = None,
      heap = (\<lambda>r. no_tower)
        (0 := \<lparr>tower_id = 1, name = ''Tower 1'', frequency = 5, lat = 0, lng = 0\<rparr>),
      nextRef = 1\<rparr>"
  by (simp add: one_tower_state_def handler_defs eval_nat_numeral)

lemma linked_pair_state_value:
  "linked_pair_state = \<lparr>mode = ''addLink'', towers = [0, 1],
      links = [\<lparr>link_id = 1, tower1 = 0, tower2 = 1, link_frequency = 5,
                 distance = calculateDistance 0 0 0 1\<rparr>],
      selectedTowers = [], towerIdCounter = 3, linkIdCounter = 2,
      pendingTowerLocation = None, activeLinkForFresnel = None,
      confirmAction = None, confirmModal = None,
      heap = (\<lambda>r. no_tower)
        (0 := \<lparr>tower_id = 1, name = ''Tower 1'', frequency = 5, lat = 0, lng = 0\<rparr>,
         1 := \<lparr>tower_id = 2, name = ''Tower 2'', frequency = 5, lat = 0, lng = 1\<rparr>),
      nextRef = 2\<rparr>"
  by (simp add: linked_pair_state_def handler_defs eval_nat_numeral)

lemma mixed_state_value:
  "mixed_state = \<lparr>mode = ''addLink'', towers = [0, 1, 2], links = [],
      selectedTowers = [0], towerIdCounter = 4, linkIdCounter = 1,
      pendingTowerLocation = None, activeLinkForFresnel = None,
      confirmAction = None, confirmModal = None,
      heap = (\<lambda>r. no_tower)
        (0 := \<lparr>tower_id = 1, name = ''Tower 1'', frequency = 5, lat = 0, lng = 0\<rparr>,
         1 := \<lparr>tower_id = 2, name = ''Tower 2'', frequency = 5.1, lat = 0, lng = 1\<rparr>,
         2 := \<lparr>tower_id = 3, name = ''Tower 3'', frequency = 5, lat = 1, lng = 0\<rparr>),
      nextRef = 3\<rparr>"
  by (simp add: mixed_state_def handler_defs eval_nat_numeral)

lemma reachable_triangle_state: "reachable triangle_state"
  unfolding triangle_state_def
  by (rule reachable_run [OF reachable_init]) (simp add: handler_defs)

lemma reachable_linked_pair_state: "reachable linked_pair_state"
  unfolding linked_pair_state_def
  by (rule reachable_run [OF reachable_init]) (simp add: handler_defs)

lemma reachable_one_tower_state: "reachable one_tower_state"
  unfolding one_tower_state_def
  by (rule reachable_run [OF reachable_init]) (simp add: handler_defs)

section \<open>Properties of the registry\<close>

text \<open>
  Claim C2. When one tower \<open>a\<close> is selected and another tower \<open>b\<close> is clicked, the pairing
  attempt fails with the frequency-mismatch notification whenever the two frequencies differ
  (exact inequality), the selection is cleared and the link collection is unchanged; when the
  frequencies are equal and the pair is not linked yet, the attempt succeeds and appends one
  link. The check is in \<^verbatim>\<open>handleTowerClickForLink\<close>, the only caller of \<^verbatim>\<open>createLink\<close>.
\<close>

theorem handleTowerClickForLink_frequency_check:
  assumes sel: "selectedTowers s = [a]"
    and ab: "tower_id (heap s a) \<noteq> tower_id (heap s b)"
  shows "(frequency (heap s a) \<noteq> frequency (heap s b) \<longrightarrow>
            handleTowerClickForLink b s
              = (Some (FrequencyMismatchError (frequency (heap s a)) (frequency (heap s b))),
                 s\<lparr>selectedTowers := []\<rparr>)
            \<and> links (snd (handleTowerClickForLink b s)) = links s)
       \<and> (frequency (heap s a) = frequency (heap s b) \<and>
          \<not> list_ex (\<lambda>l.
               (tower_id (heap s (tower1 l)) = tower_id (heap s a) \<and>
                tower_id (heap s (tower2 l)) = tower_id (heap s b)) \<or>
               (tower_id (heap s (tower1 l)) = tower_id (heap s b) \<and>
                tower_id (heap s (tower2 l)) = tower_id (heap s a))) (links s) \<longrightarrow>
            fst (handleTowerClickForLink b s) = None
            \<and> links (snd (handleTowerClickForLink b s))
                = links s @ [\<lparr>link_id = linkIdCounter s, tower1 = a, tower2 = b,
                               link_frequency = frequency (heap s a),
                               distance = calculateDistance (lat (heap s a)) (lng (heap s a))
                                                            (lat (heap s b)) (lng (heap s b))\<rparr>])"
proof -
  have fi: "findIndex (\<lambda>t. tower_id (heap s t) = tower_id (heap s b)) (selectedTowers s) = None"
    using sel ab by simp
  have s1: "(case findIndex (\<lambda>t. tower_id (heap s t) = tower_id (heap s b))
                       (selectedTowers s) of
                  Some i \<Rightarrow> s\<lparr>selectedTowers := splice1 i (selectedTowers s)\<rparr>
                | None \<Rightarrow> s\<lparr>selectedTowers := selectedTowers s @ [b]\<rparr>)
             = s\<lparr>selectedTowers := [a, b]\<rparr>"
    unfolding fi using sel by simp
  show ?thesis
    unfolding handleTowerClickForLink_def s1
    by (simp add: clearTowerSelection_def createLink_def Let_def split_beta)
qed

theorem handleTowerClickForLink_frequency_check_witness:
  "selectedTowers mixed_state = [0]
   \<and> tower_id (heap mixed_state 0) \<noteq> tower_id (heap mixed_state 1)
   \<and> tower_id (heap mixed_state 0) \<noteq> tower_id (heap mixed_state 2)
   \<and> frequency (heap mixed_state 0) = 5 \<and> frequency (heap mixed_state 1) = 5.1
   \<and> frequency (heap mixed_state 2) = 5
   \<and> fst (handleTowerClickForLink 1 mixed_state) = Some (FrequencyMismatchError 5 5.1)
   \<and> links (snd (handleTowerClickForLink 1 mixed_state)) = links mixed_state
   \<and> fst (handleTowerClickForLink 2 mixed_state) = None
   \<and> map link_id (links (snd (handleTowerClickForLink 2 mixed_state))) = [1]
   \<and> length (links (snd (handleTowerClickForLink 2 mixed_state)))
       = length (links mixed_state) + 1"
proof -
  have sel: "selectedTowers mixed_state = [0]" by (simp add: mixed_state_value)
  have n1: "tower_id (heap mixed_state 0) \<noteq> tower_id (heap mixed_state 1)"
    and n2: "tower_id (heap mixed_state 0) \<noteq> tower_id (heap mixed_state 2)"
    by (simp_all add: mixed_state_value)
  have f: "frequency (heap mixed_state 0) = 5" "frequency (heap mixed_state 1) = 5.1"
    "frequency (heap mixed_state 2) = 5" "links mixed_state = []" "linkIdCounter mixed_state = 1"
    by (simp_all add: mixed_state_value)
  have a: "fst (handleTowerClickForLink 1 mixed_state) = Some (FrequencyMismatchError 5 5.1)
         \<and> links (snd (handleTowerClickForLink 1 mixed_state)) = links mixed_state"
    using handleTowerClickForLink_frequency_check [OF sel n1] f by simp
  have b: "fst (handleTowerClickForLink 2 mixed_state) = None
         \<and> map link_id (links (snd (handleTowerClickForLink 2 mixed_state))) = [1]
         \<and> length (links (snd (handleTowerClickForLink 2 mixed_state)))
             = length (links mixed_state) + 1"
    using handleTowerClickForLink_frequency_check [OF sel n2] f by simp
  show ?thesis using sel n1 n2 f a b by simp
qed

text \<open>
  In a state whose link ids and tower ids are unique and whose links all end at towers of
  the collection, deleting a present tower removes exactly the links that reference it, each
  through \<^verbatim>\<open>performDeleteLink\<close> (which also clears the active Fresnel link when it is one of
  them), then the tower itself; every remaining link still ends at towers of the collection.
\<close>

lemma performDeleteTower_cascade:
  assumes ids: "distinct (map link_id (links s))"
    and tids: "distinct (map (\<lambda>t. tower_id (heap s t)) (towers s))"
    and nd: "\<forall>l\<in>set (links s). tower1 l \<in> set (towers s) \<and> tower2 l \<in> set (towers s)"
    and ex: "\<exists>t\<in>set (towers s). tower_id (heap s t) = towerId"
  shows "links (performDeleteTower towerId s)
           = filter (\<lambda>l. \<not> (tower_id (heap s (tower1 l)) = towerId \<or>
                            tower_id (heap s (tower2 l)) = towerId)) (links s)
       \<and> towers (performDeleteTower towerId s)
           = filter (\<lambda>t. tower_id (heap s t) \<noteq> towerId) (towers s)
       \<and> length (towers (performDeleteTower towerId s)) + 1 = length (towers s)
       \<and> (\<forall>l\<in>set (links (performDeleteTower towerId s)).
            tower1 l \<in> set (towers (performDeleteTower towerId s)) \<and>
            tower2 l \<in> set (towers (performDeleteTower towerId s)))
       \<and> activeLinkForFresnel (performDeleteTower towerId s)
           = (if \<exists>l\<in>set (links s). (tower_id (heap s (tower1 l)) = towerId \<or>
                                     tower_id (heap s (tower2 l)) = towerId) \<and>
                                    activeLinkForFresnel s = Some (link_id l)
              then None else activeLinkForFresnel s)
       \<and> heap (performDeleteTower towerId s) = heap s"
proof -
  let ?T = "\<lambda>l. tower_id (heap s (tower1 l)) = towerId \<or> tower_id (heap s (tower2 l)) = towerId"
  let ?R = "filter ?T (links s)"
  let ?s1 = "fold (\<lambda>l. performDeleteLink (link_id l)) ?R s"
  obtain i where i: "findIndex (\<lambda>t. tower_id (heap s t) = towerId) (towers s) = Some i"
    using ex by (cases "findIndex (\<lambda>t. tower_id (heap s t) = towerId) (towers s)")
      (auto simp: findIndex_None_iff)
  have pdt: "performDeleteTower towerId s = ?s1\<lparr>towers := splice1 i (towers ?s1)\<rparr>"
    using i by (simp add: performDeleteTower_def Let_def)
  have t1: "towers ?s1 = towers s" and h1: "heap ?s1 = heap s"
    using fold_delete_other [of ?R s] by simp_all
  have sp: "splice1 i (towers s) = filter (\<lambda>t. tower_id (heap s t) \<noteq> towerId) (towers s)"
    using splice_findIndex_filter [OF tids, of towerId] i by simp
  have mem: "link_id l \<in> link_id ` set ?R \<longleftrightarrow> ?T l" if "l \<in> set (links s)" for l
  proof
    assume "link_id l \<in> link_id ` set ?R"
    then obtain l' where l': "l' \<in> set (links s)" "?T l'" "link_id l' = link_id l" by auto
    then have "l' = l" using ids that by (simp add: distinct_map inj_on_def)
    then show "?T l" using l' by simp
  next
    assume "?T l" then show "link_id l \<in> link_id ` set ?R" using that by auto
  qed
  have L: "links (performDeleteTower towerId s) = filter (\<lambda>l. \<not> ?T l) (links s)"
  proof -
    have "links ?s1 = filter (\<lambda>l. link_id l \<notin> link_id ` set ?R) (links s)"
      using ids by (rule fold_delete_links)
    also have "\<dots> = filter (\<lambda>l. \<not> ?T l) (links s)"
    proof (rule filter_cong)
      fix l assume "l \<in> set (links s)"
      from mem [OF this] show "(link_id l \<notin> link_id ` set ?R) = (\<not> ?T l)"
        by (simp only:)
    qed simp
    finally show ?thesis by (simp add: pdt)
  qed
  have Tw: "towers (performDeleteTower towerId s)
              = filter (\<lambda>t. tower_id (heap s t) \<noteq> towerId) (towers s)"
    by (simp add: pdt t1 sp)
  have len: "length (towers (performDeleteTower towerId s)) + 1 = length (towers s)"
  proof -
    have "i < length (towers s)" using findIndex_Some [OF i] by simp
    then show ?thesis by (simp add: pdt t1 splice1_def)
  qed
  have D: "\<forall>l\<in>set (links (performDeleteTower towerId s)).
            tower1 l \<in> set (towers (performDeleteTower towerId s)) \<and>
            tower2 l \<in> set (towers (performDeleteTower towerId s))"
    unfolding L Tw using nd by auto
  have A: "activeLinkForFresnel (performDeleteTower towerId s)
           = (if \<exists>l\<in>set (links s). ?T l \<and> activeLinkForFresnel s = Some (link_id l)
              then None else activeLinkForFresnel s)"
  proof -
    have "activeLinkForFresnel ?s1
        = (if \<exists>l\<in>set ?R. activeLinkForFresnel s = Some (link_id l)
                        \<and> link_id l \<in> link_id ` set (links s)
           then None else activeLinkForFresnel s)"
      using ids by (rule fold_delete_active)
    also have "(\<exists>l\<in>set ?R. activeLinkForFresnel s = Some (link_id l)
                        \<and> link_id l \<in> link_id ` set (links s))
        = (\<exists>l\<in>set (links s). ?T l \<and> activeLinkForFresnel s = Some (link_id l))"
      by auto
    finally show ?thesis by (simp add: pdt)
  qed
  have H: "heap (performDeleteTower towerId s) = heap s" by (simp add: pdt h1)
  show ?thesis using L Tw len D A H by (simp only:) 
qed

lemma performDeleteTower_cascade_example:
  "distinct (map link_id (links triangle_state))
   \<and> distinct (map (\<lambda>t. tower_id (heap triangle_state t)) (towers triangle_state))
   \<and> list_all (\<lambda>l. tower1 l \<in> set (towers triangle_state) \<and>
                    tower2 l \<in> set (towers triangle_state)) (links triangle_state)
   \<and> (\<exists>t\<in>set (towers triangle_state). tower_id (heap triangle_state t) = 1)
   \<and> map link_id (links triangle_state) = [1, 2, 3]
   \<and> map link_id (links (performDeleteTower 1 triangle_state)) = [3]
   \<and> towers triangle_state = [0, 1, 2]
   \<and> towers (performDeleteTower 1 triangle_state) = [1, 2]
   \<and> list_all (\<lambda>l. tower1 l \<in> set (towers (performDeleteTower 1 triangle_state)) \<and>
                    tower2 l \<in> set (towers (performDeleteTower 1 triangle_state)))
        (links (performDeleteTower 1 triangle_state))"
proof -
  have h1: "distinct (map link_id (links triangle_state))"
    by (simp add: triangle_state_value)
  have h2: "distinct (map (\<lambda>t. tower_id (heap triangle_state t)) (towers triangle_state))"
    by (simp add: triangle_state_value)
  have h3: "\<forall>l\<in>set (links triangle_state).
              tower1 l \<in> set (towers triangle_state) \<and> tower2 l \<in> set (towers triangle_state)"
    by (simp add: triangle_state_value)
  have h4: "\<exists>t\<in>set (towers triangle_state). tower_id (heap triangle_state t) = 1"
    by (simp add: triangle_state_value)
  note c = performDeleteTower_cascade [OF h1 h2 h3 h4]
  have l: "map link_id (links (performDeleteTower 1 triangle_state)) = [3]"
    using c by (simp add: triangle_state_value)
  have t: "towers (performDeleteTower 1 triangle_state) = [1, 2]"
    using c by (simp add: triangle_state_value)
  have e: "map link_id (links triangle_state) = [1, 2, 3]" "towers triangle_state = [0, 1, 2]"
    by (simp_all add: triangle_state_value)
  have d: "\<forall>l\<in>set (links (performDeleteTower 1 triangle_state)).
            tower1 l \<in> set (towers (performDeleteTower 1 triangle_state)) \<and>
            tower2 l \<in> set (towers (performDeleteTower 1 triangle_state))"
    using c by blast
  show ?thesis
    unfolding list_all_iff using h1 h2 h3 h4 l t e d by blast
qed

lemma stale_selection_state_value:
  "stale_selection_state = \<lparr>mode = ''addLink'', towers = [1, 2],
      links = [\<lparr>link_id = 1, tower1 = 0, tower2 = 1, link_frequency = 5,
                 distance = calculateDistance 0 0 0 1\<rparr>],
      selectedTowers = [], towerIdCounter = 4, linkIdCounter = 2,
      pendingTowerLocation = None, activeLinkForFresnel = None,
      confirmAction = None, confirmModal = None,
      heap = (\<lambda>r. no_tower)
        (0 := \<lparr>tower_id = 1, name = ''Tower 1'', frequency = 5, lat = 0, lng = 0\<rparr>,
         1 := \<lparr>tower_id = 2, name = ''Tower 2'', frequency = 5, lat = 0, lng = 1\<rparr>,
         2 := \<lparr>tower_id = 3, name = ''Tower 3'', frequency = 5, lat = 1, lng = 0\<rparr>),
      nextRef = 3\<rparr>"
  by (simp add: stale_selection_state_def handler_defs requestDeleteTower_def
      showConfirmationModal_def handleConfirm_def hideConfirmationModal_def
      performDeleteTower_def eval_nat_numeral)

lemma reachable_stale_selection_state: "reachable stale_selection_state"
  unfolding stale_selection_state_def
  by (rule reachable_run [OF reachable_init])
     (simp add: handler_defs requestDeleteTower_def showConfirmationModal_def
        handleConfirm_def hideConfirmationModal_def performDeleteTower_def)

text \<open>
  Claim C3. The claim is that after a tower is deleted every remaining link ends at towers
  of the collection. \<^verbatim>\<open>performDeleteTower\<close> leaves \<^verbatim>\<open>state.selectedTowers\<close> alone, so a tower
  deleted while selected is paired by the next marker click: in the reachable state below
  the towers left are the second and the third, and the only link runs from the deleted
  first tower to the second. Link ids and tower ids are unique there and no link references
  the third tower; deleting the third tower removes no link, and the link that remains ends
  at a tower that is not in the collection.
\<close>

theorem performDeleteTower_leaves_dangling_link:
  "reachable stale_selection_state
   \<and> towers stale_selection_state = [1, 2]
   \<and> map (\<lambda>t. tower_id (heap stale_selection_state t)) (towers stale_selection_state) = [2, 3]
   \<and> map (\<lambda>l. (link_id l, tower1 l, tower2 l)) (links stale_selection_state) = [(1, 0, 1)]
   \<and> tower_id (heap stale_selection_state 0) = 1
   \<and> towers (performDeleteTower 3 stale_selection_state) = [1]
   \<and> map (\<lambda>l. (link_id l, tower1 l, tower2 l))
        (links (performDeleteTower 3 stale_selection_state)) = [(1, 0, 1)]
   \<and> \<not> list_all (\<lambda>l. tower1 l \<in> set (towers (performDeleteTower 3 stale_selection_state)) \<and>
                      tower2 l \<in> set (towers (performDeleteTower 3 stale_selection_state)))
          (links (performDeleteTower 3 stale_selection_state))"
proof -
  have d: "performDeleteTower 3 stale_selection_state
             = stale_selection_state\<lparr>towers := [1]\<rparr>"
    by (simp add: stale_selection_state_value performDeleteTower_def performDeleteLink_def
        splice1_def Let_def)
  show ?thesis
    unfolding d using reachable_stale_selection_state
    by (simp add: stale_selection_state_value)
qed

text \<open>
  Claim C4. In every reachable state at most one link is the active Fresnel link. Clicking link
  \<open>X\<close> and then another link \<open>Y\<close> leaves exactly \<open>Y\<close> active; clicking \<open>Y\<close> again leaves no
  link active; deleting the active link clears \<^verbatim>\<open>state.activeLinkForFresnel\<close>.
\<close>

theorem fresnel_zone_singleton:
  assumes r: "reachable s"
  shows "length (active_links s) \<le> 1
     \<and> (\<forall>X\<in>set (links s). \<forall>Y\<in>set (links s). X \<noteq> Y \<longrightarrow>
           active_links (showFresnelZone Y (showFresnelZone X s)) = [Y]
         \<and> active_links (showFresnelZone Y (showFresnelZone Y (showFresnelZone X s))) = [])
     \<and> (\<forall>L\<in>set (links s). activeLinkForFresnel s = Some (link_id L) \<longrightarrow>
           activeLinkForFresnel (performDeleteLink (link_id L) s) = None
         \<and> active_links (performDeleteLink (link_id L) s) = []
         \<and> L \<notin> set (links (performDeleteLink (link_id L) s)))"
proof -
  have d: "distinct (map link_id (links s))"
    using reachable_links_inv [OF r] by (simp add: links_inv_def)
  have one: "length (active_links s) \<le> 1"
    unfolding active_links_def using d by (rule filter_distinct_le1)
  have tog: "active_links (showFresnelZone Y (showFresnelZone X s)) = [Y]
         \<and> active_links (showFresnelZone Y (showFresnelZone Y (showFresnelZone X s))) = []"
    if "X \<in> set (links s)" "Y \<in> set (links s)" "X \<noteq> Y" for X Y
  proof -
    have ne: "link_id X \<noteq> link_id Y"
      using d that by (auto simp: distinct_map inj_on_def)
    have a: "activeLinkForFresnel (showFresnelZone Y (showFresnelZone X s)) = Some (link_id Y)"
      using ne by (simp add: showFresnelZone_def deactivateActiveFresnelZone_def Let_def)
    have l: "links (showFresnelZone Y (showFresnelZone X s)) = links s"
      by (simp add: showFresnelZone_def deactivateActiveFresnelZone_def Let_def)
    have "active_links (showFresnelZone Y (showFresnelZone X s)) = [Y]"
      unfolding active_links_def a l using d that(2) by (rule filter_distinct_single)
    moreover have "activeLinkForFresnel (showFresnelZone Y (showFresnelZone Y (showFresnelZone X s))) = None"
      using a by (simp add: showFresnelZone_def [of Y "showFresnelZone Y (showFresnelZone X s)"]
          deactivateActiveFresnelZone_def)
    then have "active_links (showFresnelZone Y (showFresnelZone Y (showFresnelZone X s))) = []"
      by (simp add: active_links_def)
    ultimately show ?thesis by simp
  qed
  have del: "activeLinkForFresnel (performDeleteLink (link_id L) s) = None
         \<and> active_links (performDeleteLink (link_id L) s) = []
         \<and> L \<notin> set (links (performDeleteLink (link_id L) s))"
    if "L \<in> set (links s)" "activeLinkForFresnel s = Some (link_id L)" for L
  proof -
    have "activeLinkForFresnel (performDeleteLink (link_id L) s) = None"
      using that by (simp add: performDeleteLink_active)
    moreover from this have "active_links (performDeleteLink (link_id L) s) = []"
      by (simp add: active_links_def)
    moreover have "L \<notin> set (links (performDeleteLink (link_id L) s))"
      using d by (simp add: performDeleteLink_links)
    ultimately show ?thesis by simp
  qed
  show ?thesis using one tog del by blast
qed

theorem fresnel_zone_singleton_witness:
  "reachable triangle_state
   \<and> reachable (showFresnelZone (links triangle_state ! 0) triangle_state)
   \<and> map link_id (links triangle_state) = [1, 2, 3]
   \<and> length (active_links triangle_state) \<le> 1
   \<and> active_links (showFresnelZone (links triangle_state ! 1) (showFresnelZone (links triangle_state ! 0) triangle_state))
       = [links triangle_state ! 1]
   \<and> active_links (showFresnelZone (links triangle_state ! 1)
        (showFresnelZone (links triangle_state ! 1) (showFresnelZone (links triangle_state ! 0) triangle_state))) = []
   \<and> activeLinkForFresnel (showFresnelZone (links triangle_state ! 0) triangle_state) = Some 1
   \<and> activeLinkForFresnel (performDeleteLink 1 (showFresnelZone (links triangle_state ! 0) triangle_state)) = None
   \<and> active_links (performDeleteLink 1 (showFresnelZone (links triangle_state ! 0) triangle_state)) = []"
proof -
  let ?X = "links triangle_state ! 0" and ?Y = "links triangle_state ! 1"
  have XY: "?X \<in> set (links triangle_state)" "?Y \<in> set (links triangle_state)" "?X \<noteq> ?Y" "link_id ?X = 1"
    "map link_id (links triangle_state) = [1, 2, 3]"
    by (simp_all add: triangle_state_value)
  have r1: "reachable (showFresnelZone ?X triangle_state)"
    using reachable_step [OF reachable_triangle_state, of "LinkClick ?X"] XY(1) by simp
  have l1: "links (showFresnelZone ?X triangle_state) = links triangle_state"
    and a1: "activeLinkForFresnel (showFresnelZone ?X triangle_state) = Some (link_id ?X)"
    by (simp_all add: showFresnelZone_def deactivateActiveFresnelZone_def triangle_state_value)
  have X1: "?X \<in> set (links (showFresnelZone ?X triangle_state))" using XY(1) l1 by simp
  show ?thesis
    using fresnel_zone_singleton [OF reachable_triangle_state] fresnel_zone_singleton [OF r1]
      reachable_triangle_state r1 XY X1 a1
    by (simp only:) (metis (no_types, lifting))
qed

text \<open>
  Claim C5. If the state holds a link between towers \<open>a\<close> and \<open>b\<close>, in either order, then
  \<^verbatim>\<open>createLink\<close> on the pair, in either argument order, reports the duplicate and returns the
  state unchanged. Through the click handler, with \<open>a\<close> selected, \<open>b\<close> clicked and equal
  frequencies, the attempt reports the duplicate and only clears the selection.
\<close>

theorem createLink_duplicate:
  assumes l: "l \<in> set (links s)"
    and pair: "(tower_id (heap s (tower1 l)) = tower_id (heap s a) \<and>
                tower_id (heap s (tower2 l)) = tower_id (heap s b)) \<or>
               (tower_id (heap s (tower1 l)) = tower_id (heap s b) \<and>
                tower_id (heap s (tower2 l)) = tower_id (heap s a))"
  shows "createLink a b s = (Some DuplicateLinkError, s)
       \<and> createLink b a s = (Some DuplicateLinkError, s)
       \<and> links (snd (createLink a b s)) = links s
       \<and> links (snd (createLink b a s)) = links s
       \<and> (selectedTowers s = [a] \<and> tower_id (heap s a) \<noteq> tower_id (heap s b) \<and>
          frequency (heap s a) = frequency (heap s b) \<longrightarrow>
            handleTowerClickForLink b s = (Some DuplicateLinkError, s\<lparr>selectedTowers := []\<rparr>))"
proof -
  let ?P = "\<lambda>x y l. (tower_id (heap s (tower1 l)) = tower_id (heap s x) \<and>
             tower_id (heap s (tower2 l)) = tower_id (heap s y)) \<or>
            (tower_id (heap s (tower1 l)) = tower_id (heap s y) \<and>
             tower_id (heap s (tower2 l)) = tower_id (heap s x))"
  have ab: "list_ex (?P a b) (links s)"
    unfolding list_ex_iff using l pair by blast
  have ba: "list_ex (?P b a) (links s)"
    unfolding list_ex_iff using l pair by blast
  have c: "createLink a b s = (Some DuplicateLinkError, s)"
    "createLink b a s = (Some DuplicateLinkError, s)"
    using ab ba by (simp_all add: createLink_def)
  have h: "handleTowerClickForLink b s = (Some DuplicateLinkError, s\<lparr>selectedTowers := []\<rparr>)"
    if sel: "selectedTowers s = [a]" and n: "tower_id (heap s a) \<noteq> tower_id (heap s b)"
      and f: "frequency (heap s a) = frequency (heap s b)"
  proof -
    have fi: "findIndex (\<lambda>t. tower_id (heap s t) = tower_id (heap s b)) (selectedTowers s) = None"
      using sel n by simp
    have s1: "(case findIndex (\<lambda>t. tower_id (heap s t) = tower_id (heap s b))
                       (selectedTowers s) of
                  Some i \<Rightarrow> s\<lparr>selectedTowers := splice1 i (selectedTowers s)\<rparr>
                | None \<Rightarrow> s\<lparr>selectedTowers := selectedTowers s @ [b]\<rparr>)
             = s\<lparr>selectedTowers := [a, b]\<rparr>"
      unfolding fi using sel by simp
    show ?thesis
      unfolding handleTowerClickForLink_def s1
      using ab f by (simp add: clearTowerSelection_def createLink_def Let_def)
  qed
  show ?thesis using c h by simp
qed

theorem createLink_duplicate_witness:
  "links linked_pair_state
     = [\<lparr>link_id = 1, tower1 = 0, tower2 = 1, link_frequency = 5,
         distance = calculateDistance 0 0 0 1\<rparr>]
   \<and> createLink 0 1 linked_pair_state = (Some DuplicateLinkError, linked_pair_state)
   \<and> createLink 1 0 linked_pair_state = (Some DuplicateLinkError, linked_pair_state)"
proof -
  let ?l = "\<lparr>link_id = 1, tower1 = 0, tower2 = 1, link_frequency = 5,
             distance = calculateDistance 0 0 0 1\<rparr>"
  have ls: "links linked_pair_state = [?l]" by (simp add: linked_pair_state_value)
  have m: "?l \<in> set (links linked_pair_state)" by (simp add: ls)
  have p: "(tower_id (heap linked_pair_state (tower1 ?l)) = tower_id (heap linked_pair_state 0) \<and>
            tower_id (heap linked_pair_state (tower2 ?l)) = tower_id (heap linked_pair_state 1)) \<or>
           (tower_id (heap linked_pair_state (tower1 ?l)) = tower_id (heap linked_pair_state 1) \<and>
            tower_id (heap linked_pair_state (tower2 ?l)) = tower_id (heap linked_pair_state 0))"
    by simp
  show ?thesis using createLink_duplicate [OF m p] ls by simp
qed

text \<open>
  \<^verbatim>\<open>updateTowerFrequency\<close> stores the new frequency in the tower before anything else, whatever
  its value.
\<close>

lemma updateTowerFrequency_always_writes:
  assumes "find (\<lambda>t. tower_id (heap s t) = towerId) (towers s) = Some r"
  shows "frequency (heap (updateTowerFrequency towerId newFrequency s) r) = newFrequency"
  using assms by (simp add: updateTowerFrequency_def showConfirmationModal_def Let_def)

text \<open>
  Claim C8. The claim is that a new frequency \<open>\<le> 0\<close> is rejected with a validation error and
  the tower keeps its frequency. \<^verbatim>\<open>updateTowerFrequency\<close> has no such check: on a state with one
  tower at 5 GHz it stores \<open>-1\<close> (and \<open>0\<close>) and shows nothing, while \<^verbatim>\<open>saveTower\<close> rejects the
  same value.
\<close>

theorem updateTowerFrequency_accepts_nonpositive:
  "reachable one_tower_state
   \<and> towers one_tower_state = [0]
   \<and> tower_id (heap one_tower_state 0) = 1
   \<and> frequency (heap one_tower_state 0) = 5
   \<and> frequency (heap (updateTowerFrequency 1 (- 1) one_tower_state) 0) = - 1
   \<and> frequency (heap (updateTowerFrequency 1 0 one_tower_state) 0) = 0
   \<and> confirmModal (updateTowerFrequency 1 (- 1) one_tower_state) = None
   \<and> fst (saveTower ''Tower 2'' (- 1) (handleMapClick (0, 1) one_tower_state))
       = Some ValidationError"
  using reachable_one_tower_state
  by (simp add: one_tower_state_value updateTowerFrequency_def saveTower_def Let_def)

lemma handleCancel_promise_throws:
  "returnPromise m \<Longrightarrow> handleCancel m s = (Some TypeError, hideConfirmationModal s)"
  by (simp add: handleCancel_def hideConfirmationModal_def Let_def)

lemma handleConfirm_promise_throws:
  "returnPromise m \<Longrightarrow>
   handleConfirm m s = (Some TypeError, hideConfirmationModal (runCallback (onConfirm m) s))"
  by (simp add: handleConfirm_def hideConfirmationModal_def Let_def)

text \<open>
  Claim C9. The claim is that cancelling the confirmation of a frequency change leaves the
  state as it was. With two towers at 5 GHz and a link between them, changing the first
  tower to 6 GHz opens the modal; the cancel handler hides the modal, which clears
  \<^verbatim>\<open>state.confirmAction\<close>, and then throws on \<^verbatim>\<open>state.confirmAction.resolve(false)\<close>, so the rest
  of \<^verbatim>\<open>updateTowerFrequency\<close> never runs: the tower stays at 6 GHz.
\<close>

theorem updateTowerFrequency_cancel_keeps_new_frequency:
  "reachable linked_pair_state
   \<and> frequency (heap linked_pair_state 0) = 5
   \<and> confirmModal (updateTowerFrequency 1 6 linked_pair_state)
       = Some \<lparr>onConfirm = DeleteInvalidLinksCallback (links linked_pair_state),
               returnPromise = True\<rparr>
   \<and> confirmAction (updateTowerFrequency 1 6 linked_pair_state)
       = Some \<lparr>frame_towerId = 1, frame_tower = 0\<rparr>
   \<and> fst (handleCancel \<lparr>onConfirm = DeleteInvalidLinksCallback (links linked_pair_state),
                         returnPromise = True\<rparr>
             (updateTowerFrequency 1 6 linked_pair_state)) = Some TypeError
   \<and> frequency (heap (run [FrequencyChange 1 6, CancelConfirmClick] linked_pair_state) 0) = 6
   \<and> links (run [FrequencyChange 1 6, CancelConfirmClick] linked_pair_state)
       = links linked_pair_state
   \<and> confirmModal (run [FrequencyChange 1 6, CancelConfirmClick] linked_pair_state) = None
   \<and> run [FrequencyChange 1 6, CancelConfirmClick] linked_pair_state \<noteq> linked_pair_state"
proof -
  let ?s1 = "updateTowerFrequency 1 6 linked_pair_state"
  let ?m = "\<lparr>onConfirm = DeleteInvalidLinksCallback (links linked_pair_state),
             returnPromise = True\<rparr>"
  have s1: "?s1 = linked_pair_state
      \<lparr>heap := (heap linked_pair_state)
         (0 := \<lparr>tower_id = 1, name = ''Tower 1'', frequency = 6, lat = 0, lng = 0\<rparr>),
       confirmModal := Some ?m,
       confirmAction := Some \<lparr>frame_towerId = 1, frame_tower = 0\<rparr>\<rparr>"
    by (simp add: linked_pair_state_value updateTowerFrequency_def showConfirmationModal_def
        Let_def)
  have cm: "confirmModal ?s1 = Some ?m" unfolding s1 by simp
  have c: "handleCancel ?m ?s1 = (Some TypeError, hideConfirmationModal ?s1)"
    by (simp add: handleCancel_promise_throws)
  have r: "run [FrequencyChange 1 6, CancelConfirmClick] linked_pair_state
             = hideConfirmationModal ?s1"
    by (simp only: run.simps fire.simps cm option.case c snd_conv)
  have f: "frequency (heap (hideConfirmationModal ?s1) 0) = 6"
    unfolding s1 by (simp add: hideConfirmationModal_def)
  have f0: "frequency (heap linked_pair_state 0) = 5"
    by (simp add: linked_pair_state_value)
  have ne: "hideConfirmationModal ?s1 \<noteq> linked_pair_state"
    using f f0 by auto
  have l: "links (hideConfirmationModal ?s1) = links linked_pair_state"
    and h: "confirmModal (hideConfirmationModal ?s1) = None"
    unfolding s1 by (simp_all add: hideConfirmationModal_def)
  have ca: "confirmAction ?s1 = Some \<lparr>frame_towerId = 1, frame_tower = 0\<rparr>"
    unfolding s1 by simp
  show ?thesis
    unfolding r using reachable_linked_pair_state f0 cm ca c f l h ne
    by (simp only: fst_conv simp_thms)
qed

end
